theory Spec2Isabelle
  imports Main "HOL-Library.Word"
begin

section \<open>The C library functions gpio.c relies on\<close>

text \<open>
  Strings are C strings without their terminating NUL: \<^typ>\<open>string\<close>.  The functions
  below are the library routines that decide the control flow of \<^verbatim>\<open>gpio.c\<close>:
  \<^verbatim>\<open>strcasecmp\<close>, \<^verbatim>\<open>strcmp\<close>, \<^verbatim>\<open>atoi\<close>, \<^verbatim>\<open>strtok\<close> and the \<^verbatim>\<open>%d\<close> conversion
  of \<^verbatim>\<open>printf\<close>.
\<close>

definition NL :: char where
  "NL = CHR 0x0A"

definition NUL :: char where
  "NUL = CHR 0x00"

definition tolower :: "char \<Rightarrow> char" where
  "tolower c =
     (case map_of (zip ''ABCDEFGHIJKLMNOPQRSTUVWXYZ'' ''abcdefghijklmnopqrstuvwxyz'') c of
        Some l \<Rightarrow> l
      | None \<Rightarrow> c)"

text \<open>
  \<^verbatim>\<open>strcasecmp\<close> and \<^verbatim>\<open>strcmp\<close>: only the sign of the result is specified by the C
  library, and \<^verbatim>\<open>gpio.c\<close> only ever tests the result against 0.
\<close>

fun strcasecmp :: "string \<Rightarrow> string \<Rightarrow> int" where
  "strcasecmp [] [] = 0"
| "strcasecmp [] (y # ys) = - 1"
| "strcasecmp (x # xs) [] = 1"
| "strcasecmp (x # xs) (y # ys) =
     (if tolower x = tolower y then strcasecmp xs ys
      else if (of_char (tolower x) :: nat) < of_char (tolower y) then - 1 else 1)"

fun strcmp :: "string \<Rightarrow> string \<Rightarrow> int" where
  "strcmp [] [] = 0"
| "strcmp [] (y # ys) = - 1"
| "strcmp (x # xs) [] = 1"
| "strcmp (x # xs) (y # ys) =
     (if x = y then strcmp xs ys
      else if (of_char x :: nat) < of_char y then - 1 else 1)"

definition isspace :: "char \<Rightarrow> bool" where
  "isspace c = (c = CHR '' '' \<or> (9 \<le> (of_char c :: nat) \<and> (of_char c :: nat) \<le> 13))"

definition isdigit :: "char \<Rightarrow> bool" where
  "isdigit c = (48 \<le> (of_char c :: nat) \<and> (of_char c :: nat) \<le> 57)"

fun digits_val :: "int \<Rightarrow> string \<Rightarrow> int" where
  "digits_val acc [] = acc"
| "digits_val acc (c # cs) =
     (if isdigit c then digits_val (10 * acc + (int (of_char c) - 48)) cs else acc)"

text \<open>The value \<^verbatim>\<open>strtol (s, NULL, 10)\<close> denotes before it is fitted into a \<^verbatim>\<open>long\<close>.\<close>

definition strtol10 :: "string \<Rightarrow> int" where
  "strtol10 s =
     (case dropWhile isspace s of
        [] \<Rightarrow> 0
      | c # cs \<Rightarrow>
          if c = CHR ''-'' then - digits_val 0 cs
          else if c = CHR ''+'' then digits_val 0 cs
          else digits_val 0 (c # cs))"

definition INT_MIN :: int where
  "INT_MIN = - (2 ^ 31)"

definition INT_MAX :: int where
  "INT_MAX = 2 ^ 31 - 1"

text \<open>
  \<^verbatim>\<open>atoi (s)\<close> is \<^verbatim>\<open>(int) strtol (s, NULL, 10)\<close>.  C leaves the result undefined when the
  number does not fit in an \<^verbatim>\<open>int\<close>; the model takes what the C library of the 32-bit
  Raspberry Pi systems does, where \<^verbatim>\<open>strtol\<close> saturates at the bounds of a 32-bit \<^verbatim>\<open>long\<close>.
  Where \<^verbatim>\<open>long\<close> has 64 bits the cast cuts the result down instead (\<^verbatim>\<open>atoi ("4294967296")\<close>
  is 0 there and \<open>INT_MAX\<close> here).  For a number between \<open>INT_MIN\<close> and \<open>INT_MAX\<close> both
  agree with the model, and no theorem below is about a number outside.
\<close>

definition atoi :: "string \<Rightarrow> int" where
  "atoi s = max INT_MIN (min INT_MAX (strtol10 s))"

fun dec_nat :: "nat \<Rightarrow> string" where
  "dec_nat n =
     (if n < 10 then [''0123456789'' ! n]
      else dec_nat (n div 10) @ [''0123456789'' ! (n mod 10)])"

declare dec_nat.simps [simp del]

text \<open>The \<^verbatim>\<open>%d\<close> conversion.\<close>

definition dec :: "int \<Rightarrow> string" where
  "dec i = (if i < 0 then CHR ''-'' # dec_nat (nat (- i)) else dec_nat (nat i))"

text \<open>
  The tokens that the loop \<^verbatim>\<open>pt = strtok (s, ","); while (pt != NULL) ... pt = strtok (NULL, ",")\<close>
  visits: the maximal comma-free pieces of \<open>s\<close> that are not empty.
\<close>

fun split_on :: "char \<Rightarrow> string \<Rightarrow> string \<Rightarrow> string list" where
  "split_on d cur [] = [cur]"
| "split_on d cur (c # cs) =
     (if c = d then cur # split_on d [] cs else split_on d (cur @ [c]) cs)"

definition strtok_all :: "string \<Rightarrow> char \<Rightarrow> string list" where
  "strtok_all s d = filter (\<lambda>t. t \<noteq> []) (split_on d [] s)"


section \<open>The outside world: environment, effects, outcomes\<close>

text \<open>The numbering modes of \<^verbatim>\<open>wiringPi.h\<close> that \<^verbatim>\<open>gpio.c\<close> stores into \<^verbatim>\<open>wpMode\<close>.\<close>

datatype wpi_mode = WPI_MODE_PINS | WPI_MODE_GPIO | WPI_MODE_PHYS | WPI_MODE_UNINITIALISED

datatype pin_level = LOW | HIGH

datatype int_edge = INT_EDGE_FALLING | INT_EDGE_RISING | INT_EDGE_BOTH

text \<open>Calls into the wiringPi library; the library itself is not part of \<^verbatim>\<open>gpio.c\<close>.\<close>

datatype libcall =
    WiringPiSetupGpio
  | WiringPiSetupPhys
  | WiringPiSetup
  | WiringPiVersion
  | PiBoardId
  | LoadWPiExtension string
  | DigitalWrite int pin_level
  | DigitalReadBank int
  | WiringPiISRmulti "int list" int_edge

text \<open>What is printed; the wording of a diagnostic is kept only where it carries data.\<close>

datatype msg =
    Text string
  | Msg_debug_enabled
  | Msg_format
  | Msg_usage
  | Msg_warranty
  | Msg_must_be_root
  | Msg_x_missing
  | Msg_ext_load_failed
  | Msg_no_command
  | Msg_unknown_command string
  | Msg_version_banner
  | Msg_board_details
  | Msg_devtree_enabled
  | Msg_model_string
  | Msg_user_level_gpio
  | Msg_root_required
  | Msg_usage_of string
  | Msg_open_failed string
  | Msg_invalid_mode string
  | Msg_chown_failed string
  | Msg_devtree_refused
  | Msg_spi_buffer_size
  | Msg_no_found
  | Msg_unable_to_load string
  | Msg_proc_modules
  | Msg_bad_bank
  | Msg_bank_value "32 word"
  | Msg_isr_failed
  | Msg_wait_for nat
  | Msg_wfi int int

datatype chown_result = Chown_ok | Chown_ENOENT | Chown_error

text \<open>
  The effects of a run, in program order, one event for each call that reaches outside
  the process.  \<open>Fopen p\<close> is a successful \<^verbatim>\<open>fopen (p, "w")\<close>; \<open>Fprintf p s\<close> is an
  \<^verbatim>\<open>fprintf\<close> of \<open>s\<close> to the stream opened on \<open>p\<close>; \<open>System cmd\<close> is
  \<^verbatim>\<open>system (cmd)\<close>.
\<close>

datatype event =
    Fopen string
  | Fprintf string string
  | Fclose string
  | Chown string nat nat
  | Print_out msg
  | Print_err msg
  | System string
  | Sleep nat
  | DelayMs nat
  | Lib libcall
  | Set_wpMode wpi_mode

text \<open>
  What the process cannot decide by itself.  Each answer may depend on the effects so far
  (writing the export control makes the kernel create the pin's files; \<^verbatim>\<open>modprobe\<close>
  changes the module list), so the file-system and library oracles take the trace.
\<close>

record env =
  getenv_WIRINGPI_DEBUG :: bool
  geteuid :: nat
  getuid :: nat
  getgid :: nat
  fopen_w :: "event list \<Rightarrow> string \<Rightarrow> bool"
  open_rd :: "event list \<Rightarrow> string \<Rightarrow> bool"
  read16 :: "event list \<Rightarrow> string \<Rightarrow> string option"
  stat_ok :: "event list \<Rightarrow> string \<Rightarrow> bool"
  chown_rc :: "event list \<Rightarrow> string \<Rightarrow> chown_result"
  proc_modules :: "event list \<Rightarrow> string list option"
  loadWPiExtension :: "event list \<Rightarrow> string \<Rightarrow> bool"
  digitalReadBank :: "event list \<Rightarrow> int \<Rightarrow> 32 word"
  wiringPiISRmulti :: "event list \<Rightarrow> int list \<Rightarrow> int_edge \<Rightarrow> int"
  MAX_ONBOARD_PINS :: nat

text \<open>The functions that \<^verbatim>\<open>main\<close> dispatches to.\<close>

datatype handler =
    DoExports | DoExport | DoEdge | DoUnexport | DoUnexportall
  | DoLoad | DoUnLoad | DoUsbP | DoAllReadall
  | DoMode | DoRead | DoBank | DoWrite | DoPwm | DoAwrite | DoAread
  | DoToggle | DoBlink
  | DoPwmMode_BAL | DoPwmMode_MS | DoPwmRange | DoPwmClock | DoPwmTone | DoPadDrive
  | DoReadall | DoQmode | DoI2Cdetect | DoReset | DoWriteByte | DoReadByte bool
  | DoClock | DoWfi | DoMWfi

text \<open>
  How a function ends: it returns to its caller, it ends the process with
  \<^verbatim>\<open>exit (code)\<close>, or it runs into behaviour that C leaves undefined.  The fourth
  outcome is for \<^verbatim>\<open>main\<close> alone: \<open>Call h argc argv\<close> says that \<^verbatim>\<open>main\<close> ends by calling
  the handler \<open>h\<close> on \<open>(argc, argv)\<close> and, should the handler return, returns 0.
\<close>

datatype outcome = Return | Exit int | Undefined | Call handler nat "string list"

text \<open>
  The content a file has after a trace, for a file that stores what is written to it:
  \<^verbatim>\<open>fopen (p, "w")\<close> empties it and \<^verbatim>\<open>fprintf\<close> appends.
\<close>

fun fs_step :: "(string \<rightharpoonup> string) \<Rightarrow> event \<Rightarrow> (string \<rightharpoonup> string)" where
  "fs_step m (Fopen p) = m(p \<mapsto> [])"
| "fs_step m (Fprintf p s) = m(p \<mapsto> (case m p of None \<Rightarrow> s | Some old \<Rightarrow> old @ s))"
| "fs_step m _ = m"

definition files_after :: "event list \<Rightarrow> (string \<rightharpoonup> string)" where
  "files_after evs = foldl fs_step Map.empty evs"

definition export_file :: string where
  "export_file = ''/sys/class/gpio/export''"

definition gpio_file :: "int \<Rightarrow> string \<Rightarrow> string" where
  "gpio_file pin attr = ''/sys/class/gpio/gpio'' @ dec pin @ ''/'' @ attr"


section \<open>changeOwner\<close>

definition changeOwner :: "env \<Rightarrow> string \<Rightarrow> event list \<Rightarrow> event list" where
  "changeOwner e file evs =
     (let uid = getuid e; gid = getgid e
      in case chown_rc e evs file of
           Chown_ok \<Rightarrow> evs @ [Chown file uid gid]
         | Chown_ENOENT \<Rightarrow> evs @ [Chown file uid gid]
         | Chown_error \<Rightarrow> evs @ [Chown file uid gid, Print_err (Msg_chown_failed file)])"


section \<open>doExport and doEdge\<close>


text \<open>
  In \<^verbatim>\<open>doEdge\<close> the stream on the edge file is closed last, after both calls of
  \<^verbatim>\<open>changeOwner\<close>.
\<close>

definition doEdge :: "env \<Rightarrow> nat \<Rightarrow> string list \<Rightarrow> event list \<Rightarrow> outcome \<times> event list" where
  "doEdge e argc argv evs =
     (if argc \<noteq> 4 then (Exit 1, evs @ [Print_err (Msg_usage_of ''edge pin mode'')])
      else
        let pin = atoi (argv ! 2); mode = argv ! 3
        in if \<not> fopen_w e evs export_file
           then (Exit 1, evs @ [Print_err (Msg_open_failed export_file)])
           else
             let evs1 = evs @ [Fopen export_file, Fprintf export_file (dec pin @ [NL]),
                               Fclose export_file];
                 dName = gpio_file pin ''direction''
             in if \<not> fopen_w e evs1 dName
                then (Exit 1, evs1 @ [Print_err (Msg_open_failed dName)])
                else
                  let evs2 = evs1 @ [Fopen dName, Fprintf dName (''in'' @ [NL]), Fclose dName];
                      fName = gpio_file pin ''edge''
                  in if \<not> fopen_w e evs2 fName
                     then (Exit 1, evs2 @ [Print_err (Msg_open_failed fName)])
                     else
                       let evs3 = evs2 @ [Fopen fName];
                           written =
                             (if strcasecmp mode ''none'' = 0 then Some (''none'' @ [NL])
                              else if strcasecmp mode ''rising'' = 0 then Some (''rising'' @ [NL])
                              else if strcasecmp mode ''falling'' = 0 then Some (''falling'' @ [NL])
                              else if strcasecmp mode ''both'' = 0 then Some (''both'' @ [NL])
                              else None)
                       in case written of
                            None \<Rightarrow> (Exit 1, evs3 @ [Print_err (Msg_invalid_mode mode)])
                          | Some line \<Rightarrow>
                              let evs4 = evs3 @ [Fprintf fName line];
                                  evs5 = changeOwner e (gpio_file pin ''value'') evs4;
                                  evs6 = changeOwner e (gpio_file pin ''edge'') evs5
                              in (Return, evs6 @ [Fclose fName]))"


section \<open>findExecutable, moduleLoaded, doLoad\<close>

definition searchPath :: "string list" where
  "searchPath =
     [''/sbin'', ''/usr/sbin'', ''/bin'', ''/usr/bin'', ''/usr/local/bin'', ''/usr/local/sbin'']"

fun findExecutable_from :: "env \<Rightarrow> event list \<Rightarrow> string list \<Rightarrow> string \<Rightarrow> string option" where
  "findExecutable_from e evs [] progName = None"
| "findExecutable_from e evs (dir # dirs) progName =
     (let path = dir @ ''/'' @ progName
      in if stat_ok e evs path then Some path else findExecutable_from e evs dirs progName)"

text \<open>The result \<open>None\<close> is the \<^verbatim>\<open>NULL\<close> that \<^verbatim>\<open>findExecutable\<close> returns.\<close>

definition findExecutable :: "env \<Rightarrow> event list \<Rightarrow> string \<Rightarrow> string option" where
  "findExecutable e evs progName = findExecutable_from e evs searchPath progName"

text \<open>
  \<^verbatim>\<open>moduleLoaded\<close> ends the process when \<^verbatim>\<open>/proc/modules\<close> cannot be opened: the result
  \<open>None\<close>.  The environment gives the file as the lines \<^verbatim>\<open>fgets (line, 80, fd)\<close> delivers.
\<close>

definition moduleLoaded :: "env \<Rightarrow> event list \<Rightarrow> string \<Rightarrow> bool option" where
  "moduleLoaded e evs modName =
     (let len = length modName
      in case proc_modules e evs of
           None \<Rightarrow> None
         | Some lines \<Rightarrow> Some (list_ex (\<lambda>line. take len line = modName) lines))"

text \<open>Sequencing: the rest of a function runs only when the step before it returned.\<close>

definition and_then ::
  "outcome \<times> event list \<Rightarrow> (event list \<Rightarrow> outcome \<times> event list) \<Rightarrow> outcome \<times> event list" where
  "and_then r f = (case r of (Return, evs) \<Rightarrow> f evs | (out, evs) \<Rightarrow> (out, evs))"

definition checkDevTree :: "env \<Rightarrow> event list \<Rightarrow> outcome \<times> event list" where
  "checkDevTree e evs =
     (if stat_ok e evs ''/proc/device-tree''
      then (Exit 1, evs @ [Print_err Msg_devtree_refused])
      else (Return, evs))"

definition doLoadUsage :: "event list \<Rightarrow> outcome \<times> event list" where
  "doLoadUsage evs = (Exit 1, evs @ [Print_err (Msg_usage_of ''load <spi/i2c>[I2C baudrate in Kb/sec]'')])"

text \<open>
  The block \<^verbatim>\<open>if (!moduleLoaded (m)) { sprintf (cmd, "%s %s%s", findExecutable (MODPROBE), m, args) ; system (cmd) ; }\<close>
  of \<^verbatim>\<open>doLoad\<close>.  Passing the \<^verbatim>\<open>NULL\<close> of a missing executable to \<^verbatim>\<open>%s\<close> is undefined.
\<close>

definition doLoad_modprobe :: "env \<Rightarrow> string \<Rightarrow> string \<Rightarrow> event list \<Rightarrow> outcome \<times> event list" where
  "doLoad_modprobe e module args evs =
     (case moduleLoaded e evs module of
        None \<Rightarrow> (Exit 1, evs @ [Print_err Msg_proc_modules])
      | Some True \<Rightarrow> (Return, evs)
      | Some False \<Rightarrow>
          (case findExecutable e evs ''modprobe'' of
             None \<Rightarrow> (Undefined, evs)
           | Some path \<Rightarrow> (Return, evs @ [System (path @ '' '' @ module @ args)])))"

text \<open>Everything of \<^verbatim>\<open>doLoad\<close> from the call \<^verbatim>\<open>findExecutable ("modprobe")\<close> on.\<close>

definition doLoad_modules ::
  "env \<Rightarrow> string \<Rightarrow> string \<Rightarrow> string \<Rightarrow> string \<Rightarrow> string \<Rightarrow> string \<Rightarrow> event list
     \<Rightarrow> outcome \<times> event list" where
  "doLoad_modules e module1 module2 file1 file2 args1 args2 evs =
     (let evs1 = (if findExecutable e evs ''modprobe'' = None
                  then evs @ [Print_out Msg_no_found] else evs)
      in and_then (doLoad_modprobe e module1 args1 evs1) (\<lambda>evs2.
         and_then (doLoad_modprobe e module2 args2 evs2) (\<lambda>evs3.
           case moduleLoaded e evs3 module2 of
             None \<Rightarrow> (Exit 1, evs3 @ [Print_err Msg_proc_modules])
           | Some False \<Rightarrow> (Exit 1, evs3 @ [Print_err (Msg_unable_to_load module2)])
           | Some True \<Rightarrow>
               let evs4 = evs3 @ [Sleep 1];
                   evs5 = changeOwner e file1 evs4;
                   evs6 = changeOwner e file2 evs5
               in (Return, evs6))))"

definition doLoad :: "env \<Rightarrow> nat \<Rightarrow> string list \<Rightarrow> event list \<Rightarrow> outcome \<times> event list" where
  "doLoad e argc argv evs0 =
     and_then (checkDevTree e evs0) (\<lambda>evs.
       if argc < 3 then doLoadUsage evs
       else if strcasecmp (argv ! 2) ''spi'' = 0 then
         (if argc = 4 then (Exit 1, evs @ [Print_err Msg_spi_buffer_size])
          else if argc > 4 then doLoadUsage evs
          else doLoad_modules e ''spidev'' ''spi_bcm2708'' ''/dev/spidev0.0'' ''/dev/spidev0.1''
                 [] [] evs)
       else if strcasecmp (argv ! 2) ''i2c'' = 0 then
         (if argc = 4 then
            (let baud = atoi (argv ! 3) * 1000
             in if baud < INT_MIN \<or> INT_MAX < baud then (Undefined, evs)
                else doLoad_modules e ''i2c_dev'' ''i2c_bcm2708'' ''/dev/i2c-0'' ''/dev/i2c-1''
                       [] ('' baudrate='' @ dec baud) evs)
          else if argc > 4 then doLoadUsage evs
          else doLoad_modules e ''i2c_dev'' ''i2c_bcm2708'' ''/dev/i2c-0'' ''/dev/i2c-1''
                 [] [] evs)
       else doLoadUsage evs)"


section \<open>doExports\<close>

text \<open>
  \<^verbatim>\<open>char buf [16]\<close> is a list of 16 bytes; the C string in it ends before its first NUL.
  The block that \<^verbatim>\<open>doExports\<close> runs after each successful \<^verbatim>\<open>open\<close> is, with \<open>l\<close> the result
  of \<^verbatim>\<open>read (fd, buf, 16)\<close>:
  \<^verbatim>\<open>if (l == 0) sprintf (buf, "%s", "?") ; buf [l] = 0 ; if (buf [strlen (buf) - 1] == '\n') buf [strlen (buf) - 1] = 0 ;\<close>
  It is modelled in two steps.  \<open>read_into\<close> is the part up to and including
  \<^verbatim>\<open>buf [l] = 0\<close>; \<open>strip_newline\<close> is the test for the trailing newline.  \<open>None\<close> is an access
  outside the array: \<^verbatim>\<open>buf [-1]\<close> after a failed read, \<^verbatim>\<open>buf [16]\<close> after a read of 16 bytes,
  \<^verbatim>\<open>buf [strlen (buf) - 1]\<close> on an empty string.
\<close>

definition cstr :: "char list \<Rightarrow> string" where
  "cstr buf = takeWhile (\<lambda>c. c \<noteq> NUL) buf"

definition strlen :: "char list \<Rightarrow> nat" where
  "strlen buf = length (cstr buf)"

definition sprintf_s :: "char list \<Rightarrow> string \<Rightarrow> char list" where
  "sprintf_s buf s = s @ [NUL] @ drop (length s + 1) buf"

definition read_into :: "string option \<Rightarrow> char list \<Rightarrow> char list option" where
  "read_into rd buf =
     (case rd of
        None \<Rightarrow> None
      | Some bytes \<Rightarrow>
          let data = take 16 bytes;
              l = length data;
              buf1 = data @ drop l buf;
              buf2 = (if l = 0 then sprintf_s buf1 ''?'' else buf1)
          in if l < 16 then Some (buf2[l := NUL]) else None)"

definition strip_newline :: "char list \<Rightarrow> char list option" where
  "strip_newline buf =
     (if strlen buf = 0 then None
      else if buf ! (strlen buf - 1) = NL then Some (buf[strlen buf - 1 := NUL])
      else Some buf)"

definition read_attr :: "string option \<Rightarrow> char list \<Rightarrow> char list option" where
  "read_attr rd buf = (case read_into rd buf of None \<Rightarrow> None | Some buf' \<Rightarrow> strip_newline buf')"

definition pad_left :: "nat \<Rightarrow> string \<Rightarrow> string" where
  "pad_left n s = replicate (n - length s) CHR '' '' @ s"

definition pad_right :: "nat \<Rightarrow> string \<Rightarrow> string" where
  "pad_right n s = s @ replicate (n - length s) CHR '' ''"

text \<open>
  One round of the loop of \<^verbatim>\<open>doExports\<close>, for pin \<open>i\<close>.  The state is the flag \<open>first\<close>,
  the buffer and the trace.
\<close>

definition doExports_pin ::
  "env \<Rightarrow> int \<Rightarrow> nat \<times> char list \<times> event list \<Rightarrow> outcome \<times> nat \<times> char list \<times> event list" where
  "doExports_pin e i st =
     (case st of (first, buf, evs) \<Rightarrow>
        if \<not> open_rd e evs (gpio_file i ''direction'') then (Return, first, buf, evs)
        else
          let evs1 = (if first = 0 then evs @ [Print_out (Text (''GPIO Pins exported:'' @ [NL]))]
                      else evs);
              first1 = (if first = 0 then first + 1 else first);
              evs2 = evs1 @ [Print_out (Text (pad_left 4 (dec i) @ '': ''))]
          in (case read_attr (read16 e evs2 (gpio_file i ''direction'')) buf of
               None \<Rightarrow> (Undefined, first1, buf, evs2)
             | Some buf1 \<Rightarrow>
                 let evs3 = evs2 @ [Print_out (Text (pad_right 3 (cstr buf1)))]
                 in if \<not> open_rd e evs3 (gpio_file i ''value'')
                    then (Return, first1, buf1,
                          evs3 @ [Print_out (Text (''No Value file (huh?)'' @ [NL]))])
                    else
                      (case read_attr (read16 e evs3 (gpio_file i ''value'')) buf1 of
                         None \<Rightarrow> (Undefined, first1, buf1, evs3)
                       | Some buf2 \<Rightarrow>
                           let evs4 = evs3 @ [Print_out (Text (''  '' @ cstr buf2))]
                           in if \<not> open_rd e evs4 (gpio_file i ''edge'')
                              then (Return, first1, buf2, evs4 @ [Print_out (Text [NL])])
                              else
                                (case read_attr (read16 e evs4 (gpio_file i ''edge'')) buf2 of
                                   None \<Rightarrow> (Undefined, first1, buf2, evs4)
                                 | Some buf3 \<Rightarrow>
                                     (Return, first1, buf3,
                                      evs4 @ [Print_out
                                        (Text (''  '' @ pad_right 8 (cstr buf3) @ [NL]))])))))"

fun doExports_loop ::
  "env \<Rightarrow> int list \<Rightarrow> nat \<times> char list \<times> event list \<Rightarrow> outcome \<times> nat \<times> char list \<times> event list" where
  "doExports_loop e [] st = (Return, st)"
| "doExports_loop e (i # is) st =
     (case doExports_pin e i st of
        (Return, st') \<Rightarrow> doExports_loop e is st'
      | (out, st') \<Rightarrow> (out, st'))"

text \<open>
  \<open>buf\<close> is what the 16 bytes of the array hold when \<^verbatim>\<open>doExports\<close> is entered.  The
  function does not use its parameters \<open>argc\<close> and \<open>argv\<close>.
\<close>

definition doExports :: "env \<Rightarrow> char list \<Rightarrow> event list \<Rightarrow> outcome \<times> event list" where
  "doExports e buf evs =
     (case doExports_loop e (map int [0 ..< 64]) (0, buf, evs) of
        (out, first, buf', evs') \<Rightarrow> (out, evs'))"


section \<open>doBank and doWrite\<close>

definition doBank :: "env \<Rightarrow> nat \<Rightarrow> string list \<Rightarrow> event list \<Rightarrow> outcome \<times> event list" where
  "doBank e argc argv evs =
     (if argc \<noteq> 3 then (Exit 1, evs @ [Print_err (Msg_usage_of ''bank <bank#>'')])
      else
        let bank = atoi (argv ! 2)
        in if bank > 1
           then (Exit 1, evs @ [Print_err Msg_bad_bank, Print_err (Msg_usage_of ''bank <bank#>'')])
           else
             let bankVal = digitalReadBank e evs bank
             in (Return, evs @ [Lib (DigitalReadBank bank), Print_out (Msg_bank_value bankVal)]))"



section \<open>wfi and doMWfi\<close>

text \<open>
  The interrupt callback.  The state it works on is the counter \<^verbatim>\<open>nInts\<close> and the trace.
\<close>

definition wfi :: "int \<Rightarrow> int \<times> event list \<Rightarrow> int \<times> event list" where
  "wfi pin st =
     (case st of (nInts, evs) \<Rightarrow> (nInts + 1, evs @ [Print_out (Msg_wfi pin (nInts + 1))]))"

text \<open>
  The library runs the callback from its own thread while \<^verbatim>\<open>doMWfi\<close> is inside a library
  call.  A schedule \<open>isr\<close> says for which pins the callback runs in each such window:
  \<open>isr 0\<close> while \<^verbatim>\<open>wiringPiISRmulti\<close> runs, \<open>isr 1\<close> between the statement \<^verbatim>\<open>nInts = 0\<close> and
  the first test of the loop, \<open>isr (k + 2)\<close> during the \<open>k\<close>-th call of \<^verbatim>\<open>delayMs (100)\<close>
  (counted from 0).
\<close>

definition callbacks :: "int list \<Rightarrow> int \<times> event list \<Rightarrow> int \<times> event list" where
  "callbacks pins st = foldl (\<lambda>s pin. wfi pin s) st pins"

text \<open>
  The loop \<^verbatim>\<open>while (nInts < n_pins) delayMs (100)\<close>, entered when window \<open>k\<close> has passed.
  It has no exit but its test: a run that never leaves it is the value \<open>None\<close>.
\<close>

partial_function (option) doMWfi_wait ::
  "(nat \<Rightarrow> int list) \<Rightarrow> int \<Rightarrow> nat \<Rightarrow> int \<times> event list \<Rightarrow> (int \<times> event list) option" where
  "doMWfi_wait isr n_pins k st =
     (if fst st < n_pins
      then doMWfi_wait isr n_pins (Suc k)
             (callbacks (isr (Suc k)) (fst st, snd st @ [DelayMs 100]))
      else Some st)"

text \<open>
  The chain of tests on \<^verbatim>\<open>argv [3]\<close> that \<^verbatim>\<open>doWfi\<close> and \<^verbatim>\<open>doMWfi\<close> share; \<open>None\<close> is its
  last branch, the exit with "Invalid mode".
\<close>

definition wfi_mode :: "string \<Rightarrow> int_edge option" where
  "wfi_mode s =
     (if strcasecmp s ''rising'' = 0 then Some INT_EDGE_RISING
      else if strcasecmp s ''falling'' = 0 then Some INT_EDGE_FALLING
      else if strcasecmp s ''both'' = 0 then Some INT_EDGE_BOTH
      else None)"

text \<open>
  More tokens than \<^verbatim>\<open>MAX_ONBOARD_PINS\<close> overrun \<^verbatim>\<open>pinList\<close>.  \<^verbatim>\<open>nInts\<close> is taken as an
  unbounded integer: it counts interrupts from 0 and the loop ends at \<open>n_pins\<close>.
\<close>

definition doMWfi ::
  "(nat \<Rightarrow> int list) \<Rightarrow> env \<Rightarrow> nat \<Rightarrow> string list \<Rightarrow> int \<times> event list
     \<Rightarrow> (outcome \<times> int \<times> event list) option" where
  "doMWfi isr e argc argv st =
     (case st of (nInts, evs) \<Rightarrow>
        if argc \<noteq> 4
        then Some (Exit 1, nInts, evs @ [Print_err (Msg_usage_of ''mwfi pin[,pin...] mode'')])
        else
          let toks = strtok_all (argv ! 2) CHR '',''
          in if MAX_ONBOARD_PINS e < length toks then Some (Undefined, nInts, evs)
             else
               let pinList = map atoi toks;
                   n_pins = length pinList;
                   mode = wfi_mode (argv ! 3)
               in (case mode of
                    None \<Rightarrow> Some (Exit 1, nInts, evs @ [Print_err (Msg_invalid_mode (argv ! 3))])
                  | Some m \<Rightarrow>
                      let st1 = callbacks (isr 0) (nInts, evs @ [Lib (WiringPiISRmulti pinList m)])
                      in if wiringPiISRmulti e evs pinList m < 0
                         then Some (Exit 1, fst st1, snd st1 @ [Print_err Msg_isr_failed])
                         else
                           let st2 = callbacks (isr 1)
                                       (0, snd st1 @ [Print_out (Msg_wait_for n_pins)])
                           in (case doMWfi_wait isr (int n_pins) 1 st2 of
                                 None \<Rightarrow> None
                               | Some (nInts', evs') \<Rightarrow> Some (Return, nInts', evs'))))"


section \<open>doVersion and main\<close>

definition doVersion :: "env \<Rightarrow> event list \<Rightarrow> event list" where
  "doVersion e evs =
     (let evs1 = evs @ [Lib WiringPiVersion, Print_out Msg_version_banner,
                        Lib PiBoardId, Print_out Msg_board_details];
          evs2 = (if stat_ok e evs1 ''/proc/device-tree''
                  then evs1 @ [Print_out Msg_devtree_enabled] else evs1);
          evs3 = (if stat_ok e evs2 ''/proc/device-tree/model''
                    \<and> open_rd e evs2 ''/proc/device-tree/model''
                  then evs2 @ [Print_out Msg_model_string] else evs2);
          evs4 = (if stat_ok e evs3 ''/dev/gpiomem''
                  then evs3 @ [Print_out Msg_user_level_gpio]
                  else evs3 @ [Print_out Msg_root_required])
      in evs4 @ [Print_out (Text [NL])])"

text \<open>The loop \<^verbatim>\<open>for (i = k + 1 ; i < argc ; ++i) argv [i - k] = argv [i]\<close>.\<close>

definition shift_args :: "nat \<Rightarrow> nat \<Rightarrow> string list \<Rightarrow> string list" where
  "shift_args k argc argv = foldl (\<lambda>a i. a[i - k := a ! i]) argv [k + 1 ..< argc]"

text \<open>The chain of tests for the commands that work through \<^verbatim>\<open>/sys/class/gpio\<close>.\<close>

definition sysfs_command :: "string \<Rightarrow> handler option" where
  "sysfs_command c =
     (if strcasecmp c ''exports'' = 0 then Some DoExports
      else if strcasecmp c ''export'' = 0 then Some DoExport
      else if strcasecmp c ''edge'' = 0 then Some DoEdge
      else if strcasecmp c ''unexport'' = 0 then Some DoUnexport
      else if strcasecmp c ''unexportall'' = 0 then Some DoUnexportall
      else None)"

text \<open>The chain of tests at the end of \<^verbatim>\<open>main\<close>.\<close>

definition core_command :: "string \<Rightarrow> handler option" where
  "core_command c =
     (if strcasecmp c ''mode'' = 0 then Some DoMode
      else if strcasecmp c ''read'' = 0 then Some DoRead
      else if strcasecmp c ''bank'' = 0 then Some DoBank
      else if strcasecmp c ''write'' = 0 then Some DoWrite
      else if strcasecmp c ''pwm'' = 0 then Some DoPwm
      else if strcasecmp c ''awrite'' = 0 then Some DoAwrite
      else if strcasecmp c ''aread'' = 0 then Some DoAread
      else if strcasecmp c ''toggle'' = 0 then Some DoToggle
      else if strcasecmp c ''blink'' = 0 then Some DoBlink
      else if strcasecmp c ''pwm-bal'' = 0 then Some DoPwmMode_BAL
      else if strcasecmp c ''pwm-ms'' = 0 then Some DoPwmMode_MS
      else if strcasecmp c ''pwmr'' = 0 then Some DoPwmRange
      else if strcasecmp c ''pwmc'' = 0 then Some DoPwmClock
      else if strcasecmp c ''pwmTone'' = 0 then Some DoPwmTone
      else if strcasecmp c ''drive'' = 0 then Some DoPadDrive
      else if strcasecmp c ''readall'' = 0 then Some DoReadall
      else if strcasecmp c ''nreadall'' = 0 then Some DoReadall
      else if strcasecmp c ''pins'' = 0 then Some DoReadall
      else if strcasecmp c ''qmode'' = 0 then Some DoQmode
      else if strcasecmp c ''i2cdetect'' = 0 then Some DoI2Cdetect
      else if strcasecmp c ''i2cd'' = 0 then Some DoI2Cdetect
      else if strcasecmp c ''reset'' = 0 then Some DoReset
      else if strcasecmp c ''wb'' = 0 then Some DoWriteByte
      else if strcasecmp c ''rbx'' = 0 then Some (DoReadByte True)
      else if strcasecmp c ''rbd'' = 0 then Some (DoReadByte False)
      else if strcasecmp c ''clock'' = 0 then Some DoClock
      else if strcasecmp c ''wfi'' = 0 then Some DoWfi
      else if strcasecmp c ''mwfi'' = 0 then Some DoMWfi
      else None)"

text \<open>
  The numbering-scheme step of \<^verbatim>\<open>main\<close>: an \<^verbatim>\<open>if\<close> / \<^verbatim>\<open>else if\<close> for \<^verbatim>\<open>-b\<close> and \<^verbatim>\<open>-p\<close>,
  followed by a second statement, \<^verbatim>\<open>if\<close> / \<^verbatim>\<open>else if\<close> / \<^verbatim>\<open>else\<close>, for \<^verbatim>\<open>-w\<close>, \<^verbatim>\<open>-z\<close> and
  the default.  The state is \<open>(argc, argv, trace)\<close>; an assignment to the global \<^verbatim>\<open>wpMode\<close>
  is the event \<open>Set_wpMode\<close>.
\<close>

definition main_numbering ::
  "nat \<times> string list \<times> event list \<Rightarrow> nat \<times> string list \<times> event list" where
  "main_numbering st =
     (case st of (argc, argv, evs) \<Rightarrow>
        case (if strcasecmp (argv ! 1) ''-b'' = 0
              then (argc - 1, shift_args 1 argc argv,
                    evs @ [Lib WiringPiSetupGpio, Set_wpMode WPI_MODE_GPIO])
              else if strcasecmp (argv ! 1) ''-p'' = 0
              then (argc - 1, shift_args 1 argc argv,
                    evs @ [Lib WiringPiSetupPhys, Set_wpMode WPI_MODE_PHYS])
              else (argc, argv, evs))
        of (argc1, argv1, evs1) \<Rightarrow>
          if strcasecmp (argv1 ! 1) ''-w'' = 0
          then (argc1 - 1, shift_args 1 argc1 argv1,
                evs1 @ [Lib WiringPiSetup, Set_wpMode WPI_MODE_PINS])
          else if strcasecmp (argv1 ! 1) ''-z'' = 0
          then (argc1 - 1, shift_args 1 argc1 argv1, evs1 @ [Set_wpMode WPI_MODE_UNINITIALISED])
          else (argc1, argv1, evs1 @ [Lib WiringPiSetupGpio, Set_wpMode WPI_MODE_GPIO]))"

text \<open>The assignments to \<^verbatim>\<open>wpMode\<close> in a trace, in order; the last one is its final value.\<close>

fun wpMode_writes :: "event list \<Rightarrow> wpi_mode list" where
  "wpMode_writes [] = []"
| "wpMode_writes (Set_wpMode m # evs) = m # wpMode_writes evs"
| "wpMode_writes (ev # evs) = wpMode_writes evs"

text \<open>The loop \<^verbatim>\<open>while (strcasecmp (argv [1], "-x") == 0)\<close>; \<open>Inl\<close> is an exit from inside it.\<close>

function main_extensions ::
  "env \<Rightarrow> nat \<Rightarrow> string list \<Rightarrow> event list
     \<Rightarrow> (outcome \<times> event list) + (nat \<times> string list \<times> event list)" where
  "main_extensions e argc argv evs =
     (if strcasecmp (argv ! 1) ''-x'' = 0 then
        (if argc < 3 then Inl (Exit 1, evs @ [Print_err Msg_x_missing])
         else if \<not> loadWPiExtension e evs (argv ! 2)
         then Inl (Exit 1, evs @ [Lib (LoadWPiExtension (argv ! 2)), Print_err Msg_ext_load_failed])
         else main_extensions e (argc - 2) (shift_args 2 argc argv)
                (evs @ [Lib (LoadWPiExtension (argv ! 2))]))
      else Inr (argc, argv, evs))"
  by pat_completeness auto
termination
  by (relation "measure (\<lambda>(e, argc, argv, evs). argc)") auto

declare main_extensions.simps [simp del]

text \<open>
  \<^verbatim>\<open>main\<close>, with \<open>argc\<close> the length of the argument vector it is started on.  An empty
  vector makes \<^verbatim>\<open>argv [1]\<close> an access beyond the array.  \<open>main_debug\<close> is its first
  statement, the test of the environment variable \<^verbatim>\<open>WIRINGPI_DEBUG\<close>.
\<close>

definition main_debug :: "env \<Rightarrow> event list" where
  "main_debug e = (if getenv_WIRINGPI_DEBUG e then [Print_out Msg_debug_enabled] else [])"

definition main :: "env \<Rightarrow> string list \<Rightarrow> outcome \<times> event list" where
  "main e argv =
     (let argc = length argv;
          evs = main_debug e
      in if argc = 0 then (Undefined, evs)
         else if argc = 1 then (Exit 1, evs @ [Print_err Msg_format])
         else if strcasecmp (argv ! 1) ''h'' = 0 \<or> strcasecmp (argv ! 1) ''-h'' = 0
                 \<or> strcasecmp (argv ! 1) ''-help'' = 0 \<or> strcasecmp (argv ! 1) ''--help'' = 0
                 \<or> strcasecmp (argv ! 1) ''help'' = 0
         then (Exit 0, evs @ [Print_out Msg_usage])
         else if strcmp (argv ! 1) ''-v'' = 0 then (Exit 0, doVersion e evs)
         else if strcasecmp (argv ! 1) ''-warranty'' = 0
         then (Exit 0, evs @ [Print_out Msg_warranty])
         else if geteuid e \<noteq> 0 then (Exit 1, evs @ [Print_err Msg_must_be_root])
         else
           case sysfs_command (argv ! 1) of
             Some h \<Rightarrow> (Call h argc argv, evs)
           | None \<Rightarrow>
               if strcasecmp (argv ! 1) ''load'' = 0 then (Call DoLoad argc argv, evs)
               else if strcasecmp (argv ! 1) ''unload'' = 0 then (Call DoUnLoad argc argv, evs)
               else if strcasecmp (argv ! 1) ''usbp'' = 0 then (Call DoUsbP argc argv, evs)
               else if strcasecmp (argv ! 1) ''allreadall'' = 0
               then (Call DoAllReadall argc argv, evs @ [Lib WiringPiSetupGpio])
               else
                 case main_numbering (argc, argv, evs) of (argc1, argv1, evs1) \<Rightarrow>
                   (case main_extensions e argc1 argv1 evs1 of
                      Inl r \<Rightarrow> r
                    | Inr (argc2, argv2, evs2) \<Rightarrow>
                        if argc2 \<le> 1 then (Exit 1, evs2 @ [Print_err Msg_no_command])
                        else
                          (case core_command (argv2 ! 1) of
                             Some h \<Rightarrow> (Call h argc2 argv2, evs2)
                           | None \<Rightarrow>
                               (Exit 1, evs2 @ [Print_err (Msg_unknown_command (argv2 ! 1))]))))"


section \<open>Notions of the specification\<close>


text \<open>The edge modes \<open>{none, rising, falling, both}\<close>, compared without regard to case.\<close>

definition spec_edge :: "string \<Rightarrow> string option" where
  "spec_edge mode =
     (let m = map tolower mode
      in if m = ''none'' \<or> m = ''rising'' \<or> m = ''falling'' \<or> m = ''both'' then Some m
         else None)"

text \<open>The help tokens, and the command names of the two chains of \<^verbatim>\<open>main\<close>, in lower case.\<close>

definition help_tokens :: "string list" where
  "help_tokens = [''h'', ''-h'', ''-help'', ''--help'', ''help'']"

definition sysfs_names :: "string list" where
  "sysfs_names = [''exports'', ''export'', ''edge'', ''unexport'', ''unexportall'']"

definition core_names :: "string list" where
  "core_names =
     [''mode'', ''read'', ''bank'', ''write'', ''pwm'', ''awrite'', ''aread'', ''toggle'',
      ''blink'', ''pwm-bal'', ''pwm-ms'', ''pwmr'', ''pwmc'', ''pwmtone'', ''drive'',
      ''readall'', ''nreadall'', ''pins'', ''qmode'', ''i2cdetect'', ''i2cd'', ''reset'',
      ''wb'', ''rbx'', ''rbd'', ''clock'', ''wfi'', ''mwfi'']"

text \<open>
  The edge events \<^verbatim>\<open>doMWfi\<close> has observed when window \<open>j\<close> of a schedule has passed:
  the callbacks run in the windows \<open>1, \<dots>, j\<close>, which are those after \<^verbatim>\<open>nInts = 0\<close>.
\<close>

fun observed :: "(nat \<Rightarrow> int list) \<Rightarrow> nat \<Rightarrow> nat" where
  "observed isr 0 = 0"
| "observed isr (Suc j) = observed isr j + length (isr (Suc j))"

text \<open>The arguments of the calls of \<^verbatim>\<open>delayMs\<close> in a trace, in order.\<close>

fun delays :: "event list \<Rightarrow> nat list" where
  "delays [] = []"
| "delays (DelayMs ms # evs) = ms # delays evs"
| "delays (ev # evs) = delays evs"

text \<open>
  \<^verbatim>\<open>doMWfi\<close> gets as far as its loop: four arguments, a pin list that fits \<^verbatim>\<open>pinList\<close>, a
  mode that is accepted, and a \<^verbatim>\<open>wiringPiISRmulti\<close> that does not fail.
\<close>

definition doMWfi_ready :: "env \<Rightarrow> nat \<Rightarrow> string list \<Rightarrow> event list \<Rightarrow> bool" where
  "doMWfi_ready e argc argv evs =
     (argc = 4 \<and> length (strtok_all (argv ! 2) CHR '','') \<le> MAX_ONBOARD_PINS e
      \<and> (case wfi_mode (argv ! 3) of
            None \<Rightarrow> False
          | Some m \<Rightarrow> \<not> wiringPiISRmulti e evs (map atoi (strtok_all (argv ! 2) CHR '','')) m < 0))"

text \<open>An environment to run the functions in: the process is root and every file opens.\<close>

definition quiet_env :: env where
  "quiet_env =
     \<lparr>getenv_WIRINGPI_DEBUG = False, geteuid = 0, getuid = 1000, getgid = 1000,
      fopen_w = (\<lambda>evs p. True), open_rd = (\<lambda>evs p. True), read16 = (\<lambda>evs p. Some []),
      stat_ok = (\<lambda>evs p. False), chown_rc = (\<lambda>evs p. Chown_ok),
      proc_modules = (\<lambda>evs. Some [''spidev 20480 0'', ''spi_bcm2708 16384 0'']),
      loadWPiExtension = (\<lambda>evs s. True),
      digitalReadBank = (\<lambda>evs b. 0), wiringPiISRmulti = (\<lambda>evs ps m. 0),
      MAX_ONBOARD_PINS = 64\<rparr>"


section \<open>Facts about the library functions and the trace\<close>

lemma strcasecmp_0_iff: "strcasecmp a b = 0 \<longleftrightarrow> map tolower a = map tolower b"
  by (induction a b rule: strcasecmp.induct) auto

lemma strcmp_0_iff: "strcmp a b = 0 \<longleftrightarrow> a = b"
  by (induction a b rule: strcmp.induct) auto

lemma tolower_edge_tokens:
  "map tolower ''none'' = ''none''" "map tolower ''rising'' = ''rising''"
  "map tolower ''falling'' = ''falling''" "map tolower ''both'' = ''both''"
  by (simp_all add: tolower_def)


lemma files_after_append: "files_after (xs @ ys) = foldl fs_step (files_after xs) ys"
  by (simp add: files_after_def)

lemma files_after_Fclose: "files_after (xs @ [Fclose p]) = files_after xs"
  by (simp add: files_after_append)

lemma changeOwner_files: "files_after (changeOwner e f evs) = files_after evs"
  by (simp add: changeOwner_def files_after_append Let_def split: chown_result.splits)

lemma changeOwner_extends:
  "\<exists>rest. changeOwner e f evs = evs @ rest \<and> (\<forall>p s. Fprintf p s \<notin> set rest)"
  by (auto simp add: changeOwner_def Let_def split: chown_result.splits)

lemma gpio_file_neq:
  "gpio_file pin ''direction'' \<noteq> export_file"
  "gpio_file pin ''edge'' \<noteq> export_file"
  "gpio_file pin ''direction'' \<noteq> gpio_file pin ''edge''"
  "gpio_file pin ''edge'' \<noteq> gpio_file pin ''direction''"
  by (simp_all add: gpio_file_def export_file_def)

lemma gpio_file_neq_sym:
  "export_file \<noteq> gpio_file pin ''direction''"
  "export_file \<noteq> gpio_file pin ''edge''"
  by (simp_all add: gpio_file_def export_file_def)

lemma strcasecmp_edge_tokens:
  "strcasecmp m ''none'' = 0 \<longleftrightarrow> map tolower m = ''none''"
  "strcasecmp m ''rising'' = 0 \<longleftrightarrow> map tolower m = ''rising''"
  "strcasecmp m ''falling'' = 0 \<longleftrightarrow> map tolower m = ''falling''"
  "strcasecmp m ''both'' = 0 \<longleftrightarrow> map tolower m = ''both''"
  by (simp_all only: strcasecmp_0_iff tolower_edge_tokens)

lemma doEdge_written_token:
  "(if strcasecmp mode ''none'' = 0 then Some (''none'' @ [NL])
    else if strcasecmp mode ''rising'' = 0 then Some (''rising'' @ [NL])
    else if strcasecmp mode ''falling'' = 0 then Some (''falling'' @ [NL])
    else if strcasecmp mode ''both'' = 0 then Some (''both'' @ [NL])
    else None) = map_option (\<lambda>t. t @ [NL]) (spec_edge mode)"
  unfolding spec_edge_def Let_def strcasecmp_edge_tokens
  by (cases "map tolower mode = ''none''"; cases "map tolower mode = ''rising''";
      cases "map tolower mode = ''falling''"; cases "map tolower mode = ''both''")
     simp_all



lemmas eval_defs = atoi_def strtol10_def isspace_def isdigit_def INT_MIN_def INT_MAX_def
  gpio_file_def export_file_def dec_def dec_nat.simps changeOwner_def Let_def tolower_def
  strcasecmp_0_iff strcmp_0_iff



section \<open>The edge command\<close>

text \<open>
  Claim C2, as the code has it.  \<^verbatim>\<open>doEdge\<close> compares the mode with \<^verbatim>\<open>strcasecmp\<close>, so the
  four tokens \<open>none\<close>, \<open>rising\<close>, \<open>falling\<close>, \<open>both\<close> are accepted in any mix of upper and
  lower case.  A mode that is none of them, compared that way, ends the command with
  exit code 1, and no \<^verbatim>\<open>fprintf\<close> reaches the edge file of the pin.  The mode is looked at
  only when the three files have been opened: if they open, the run that rejects the mode
  is the write of the pin number to the export control, the write of \<open>in\<close> to the
  direction file, the \<^verbatim>\<open>fopen\<close> of the edge file for writing and the diagnostic, so that
  the export control holds the pin number, the direction file holds \<open>in\<close>, and the edge
  file has been opened, which empties a file that stores its content, and holds nothing.
  A rejecting run that is not this one ended at a file that did not open.  A mode that is
  one of the four is written to the edge file in lower case, followed by a newline, unless
  one of the three files could not be opened.
\<close>

theorem doEdge_mode_token:
  "(spec_edge (argv ! 3) = None \<longrightarrow>
      fst (doEdge e 4 argv evs) = Exit 1
      \<and> (\<exists>new. snd (doEdge e 4 argv evs) = evs @ new
            \<and> (\<forall>s. Fprintf (gpio_file (atoi (argv ! 2)) ''edge'') s \<notin> set new)))
   \<and> (spec_edge (argv ! 3) = None
        \<and> fopen_w e evs export_file
        \<and> fopen_w e
             (evs @ [Fopen export_file, Fprintf export_file (dec (atoi (argv ! 2)) @ [NL]),
                     Fclose export_file])
             (gpio_file (atoi (argv ! 2)) ''direction'')
        \<and> fopen_w e
             (evs @ [Fopen export_file, Fprintf export_file (dec (atoi (argv ! 2)) @ [NL]),
                     Fclose export_file,
                     Fopen (gpio_file (atoi (argv ! 2)) ''direction''),
                     Fprintf (gpio_file (atoi (argv ! 2)) ''direction'') (''in'' @ [NL]),
                     Fclose (gpio_file (atoi (argv ! 2)) ''direction'')])
             (gpio_file (atoi (argv ! 2)) ''edge'') \<longrightarrow>
        doEdge e 4 argv evs =
          (Exit 1,
           evs @ [Fopen export_file, Fprintf export_file (dec (atoi (argv ! 2)) @ [NL]),
                  Fclose export_file,
                  Fopen (gpio_file (atoi (argv ! 2)) ''direction''),
                  Fprintf (gpio_file (atoi (argv ! 2)) ''direction'') (''in'' @ [NL]),
                  Fclose (gpio_file (atoi (argv ! 2)) ''direction''),
                  Fopen (gpio_file (atoi (argv ! 2)) ''edge''),
                  Print_err (Msg_invalid_mode (argv ! 3))])
        \<and> files_after (snd (doEdge e 4 argv evs)) export_file
              = Some (dec (atoi (argv ! 2)) @ [NL])
        \<and> files_after (snd (doEdge e 4 argv evs)) (gpio_file (atoi (argv ! 2)) ''direction'')
              = Some (''in'' @ [NL])
        \<and> files_after (snd (doEdge e 4 argv evs)) (gpio_file (atoi (argv ! 2)) ''edge'')
              = Some [])
   \<and> (spec_edge (argv ! 3) = None \<longrightarrow>
        (\<exists>p. snd (doEdge e 4 argv evs) \<noteq> []
              \<and> last (snd (doEdge e 4 argv evs)) = Print_err (Msg_open_failed p))
        \<or> snd (doEdge e 4 argv evs) =
             evs @ [Fopen export_file, Fprintf export_file (dec (atoi (argv ! 2)) @ [NL]),
                    Fclose export_file,
                    Fopen (gpio_file (atoi (argv ! 2)) ''direction''),
                    Fprintf (gpio_file (atoi (argv ! 2)) ''direction'') (''in'' @ [NL]),
                    Fclose (gpio_file (atoi (argv ! 2)) ''direction''),
                    Fopen (gpio_file (atoi (argv ! 2)) ''edge''),
                    Print_err (Msg_invalid_mode (argv ! 3))])
   \<and> (\<forall>t. spec_edge (argv ! 3) = Some t \<longrightarrow>
        (fst (doEdge e 4 argv evs) = Return
           \<and> files_after (snd (doEdge e 4 argv evs)) (gpio_file (atoi (argv ! 2)) ''edge'')
               = Some (t @ [NL]))
        \<or> (\<exists>p. fst (doEdge e 4 argv evs) = Exit 1
              \<and> snd (doEdge e 4 argv evs) \<noteq> []
              \<and> last (snd (doEdge e 4 argv evs)) = Print_err (Msg_open_failed p)))"
proof -
  define pin where "pin = atoi (argv ! 2)"
  define E where "E = [Fopen export_file, Fprintf export_file (dec pin @ [NL]), Fclose export_file]"
  define D where "D = [Fopen (gpio_file pin ''direction''),
                       Fprintf (gpio_file pin ''direction'') (''in'' @ [NL]),
                       Fclose (gpio_file pin ''direction'')]"
  define rejected where "rejected = evs @ E @ D @
      [Fopen (gpio_file pin ''edge''), Print_err (Msg_invalid_mode (argv ! 3))]"
  have exit1: "fst (doEdge e 4 argv evs) = Exit 1" if "spec_edge (argv ! 3) = None"
    using that by (simp add: doEdge_def Let_def doEdge_written_token)
  have noprintf: "\<exists>new. snd (doEdge e 4 argv evs) = evs @ new
            \<and> (\<forall>s. Fprintf (gpio_file pin ''edge'') s \<notin> set new)"
    if "spec_edge (argv ! 3) = None"
    using that by (simp add: doEdge_def Let_def doEdge_written_token gpio_file_neq pin_def)
  have run: "doEdge e 4 argv evs = (Exit 1, rejected)"
    if "spec_edge (argv ! 3) = None" "fopen_w e evs export_file"
      "fopen_w e (evs @ E) (gpio_file pin ''direction'')"
      "fopen_w e (evs @ E @ D) (gpio_file pin ''edge'')"
    using that by (simp add: doEdge_def Let_def doEdge_written_token pin_def E_def D_def rejected_def)
  have f1: "files_after rejected export_file = Some (dec pin @ [NL])"
    by (simp add: rejected_def E_def D_def files_after_append gpio_file_neq_sym)
  have f2: "files_after rejected (gpio_file pin ''direction'') = Some (''in'' @ [NL])"
    by (simp add: rejected_def E_def D_def files_after_append gpio_file_neq)
  have f3: "files_after rejected (gpio_file pin ''edge'') = Some []"
    by (simp add: rejected_def E_def D_def files_after_append gpio_file_neq)
  have alt: "(\<exists>p. snd (doEdge e 4 argv evs) \<noteq> []
              \<and> last (snd (doEdge e 4 argv evs)) = Print_err (Msg_open_failed p))
        \<or> snd (doEdge e 4 argv evs) = rejected"
    if "spec_edge (argv ! 3) = None"
    using that by (simp add: doEdge_def Let_def doEdge_written_token pin_def E_def D_def rejected_def)
  have ok: "(fst (doEdge e 4 argv evs) = Return
           \<and> files_after (snd (doEdge e 4 argv evs)) (gpio_file pin ''edge'') = Some (t @ [NL]))
        \<or> (\<exists>p. fst (doEdge e 4 argv evs) = Exit 1
              \<and> snd (doEdge e 4 argv evs) \<noteq> []
              \<and> last (snd (doEdge e 4 argv evs)) = Print_err (Msg_open_failed p))"
    if "spec_edge (argv ! 3) = Some t" for t
    using that by (simp add: doEdge_def Let_def doEdge_written_token files_after_Fclose
        changeOwner_files files_after_append pin_def)
  from run f1 f2 f3
  have full: "doEdge e 4 argv evs = (Exit 1, rejected)
        \<and> files_after (snd (doEdge e 4 argv evs)) export_file = Some (dec pin @ [NL])
        \<and> files_after (snd (doEdge e 4 argv evs)) (gpio_file pin ''direction'') = Some (''in'' @ [NL])
        \<and> files_after (snd (doEdge e 4 argv evs)) (gpio_file pin ''edge'') = Some []"
    if "spec_edge (argv ! 3) = None" "fopen_w e evs export_file"
      "fopen_w e (evs @ E) (gpio_file pin ''direction'')"
      "fopen_w e (evs @ E @ D) (gpio_file pin ''edge'')"
    using that by simp
  from exit1 noprintf full alt ok show ?thesis
    unfolding pin_def E_def D_def rejected_def append_Cons append_Nil by blast
qed

theorem doEdge_mode_token_witness:
  "spec_edge ([''gpio'', ''edge'', ''4'', ''RISING''] ! 3) = Some ''rising''
   \<and> spec_edge ([''gpio'', ''edge'', ''4'', ''bogus''] ! 3) = None
   \<and> fst (doEdge quiet_env 4 [''gpio'', ''edge'', ''4'', ''RISING''] []) = Return
   \<and> files_after (snd (doEdge quiet_env 4 [''gpio'', ''edge'', ''4'', ''RISING''] []))
        (gpio_file (atoi ''4'') ''edge'') = Some (''rising'' @ [NL])
   \<and> doEdge quiet_env 4 [''gpio'', ''edge'', ''4'', ''bogus''] [] =
        (Exit 1,
         [Fopen export_file, Fprintf export_file (''4'' @ [NL]), Fclose export_file,
          Fopen (gpio_file 4 ''direction''),
          Fprintf (gpio_file 4 ''direction'') (''in'' @ [NL]),
          Fclose (gpio_file 4 ''direction''),
          Fopen (gpio_file 4 ''edge''),
          Print_err (Msg_invalid_mode ''bogus'')])
   \<and> files_after (snd (doEdge quiet_env 4 [''gpio'', ''edge'', ''4'', ''bogus''] []))
        (gpio_file 4 ''direction'') = Some (''in'' @ [NL])
   \<and> files_after (snd (doEdge quiet_env 4 [''gpio'', ''edge'', ''4'', ''bogus''] []))
        (gpio_file 4 ''edge'') = Some []"
proof -
  have a: "spec_edge ([''gpio'', ''edge'', ''4'', ''RISING''] ! 3) = Some ''rising''"
    by (simp add: spec_edge_def tolower_def)
  have b: "spec_edge ([''gpio'', ''edge'', ''4'', ''bogus''] ! 3) = None"
    by (simp add: spec_edge_def tolower_def)
  have c: "fst (doEdge quiet_env 4 [''gpio'', ''edge'', ''4'', ''RISING''] []) \<noteq> Exit 1"
    by (simp add: doEdge_def quiet_env_def eval_defs)
  have n: "atoi ([''gpio'', ''edge'', ''4'', ''bogus''] ! 2) = 4" "dec 4 = ''4''"
    "[''gpio'', ''edge'', ''4'', ''bogus''] ! 3 = ''bogus''" "atoi ''4'' = 4"
    by (simp_all add: eval_defs)
  have o: "fopen_w quiet_env evs p" for evs p
    by (simp add: quiet_env_def)
  note t = doEdge_mode_token [of "[''gpio'', ''edge'', ''4'', ''RISING'']" quiet_env "[]"]
  note u = doEdge_mode_token [of "[''gpio'', ''edge'', ''4'', ''bogus'']" quiet_env "[]"]
  have m: "[''gpio'', ''edge'', ''4'', ''RISING''] ! 2 = ''4''"
    by simp
  from t [THEN conjunct2, THEN conjunct2, THEN conjunct2, THEN spec, of "''rising''", unfolded m] a c
  have d: "fst (doEdge quiet_env 4 [''gpio'', ''edge'', ''4'', ''RISING''] []) = Return
     \<and> files_after (snd (doEdge quiet_env 4 [''gpio'', ''edge'', ''4'', ''RISING''] []))
        (gpio_file (atoi ''4'') ''edge'') = Some (''rising'' @ [NL])"
    by blast
  note u2 = u [THEN conjunct2, THEN conjunct1, unfolded n append_Nil]
  from u2 b [unfolded n] o
  have e: "doEdge quiet_env 4 [''gpio'', ''edge'', ''4'', ''bogus''] [] =
        (Exit 1,
         [Fopen export_file, Fprintf export_file (''4'' @ [NL]), Fclose export_file,
          Fopen (gpio_file 4 ''direction''),
          Fprintf (gpio_file 4 ''direction'') (''in'' @ [NL]),
          Fclose (gpio_file 4 ''direction''),
          Fopen (gpio_file 4 ''edge''),
          Print_err (Msg_invalid_mode ''bogus'')])
   \<and> files_after (snd (doEdge quiet_env 4 [''gpio'', ''edge'', ''4'', ''bogus''] []))
        (gpio_file 4 ''direction'') = Some (''in'' @ [NL])
   \<and> files_after (snd (doEdge quiet_env 4 [''gpio'', ''edge'', ''4'', ''bogus''] []))
        (gpio_file 4 ''edge'') = Some []"
    by blast
  from a b d [THEN conjunct1] d [THEN conjunct2] e [THEN conjunct1]
    e [THEN conjunct2, THEN conjunct1] e [THEN conjunct2, THEN conjunct2]
  show ?thesis by (intro conjI)
qed

text \<open>
  Claim C2 as the specification words it does not hold: \<open>RISING\<close> is accepted and
  \<open>rising\<close> is written, and the rejected mode \<open>bogus\<close> is only found after the pin number
  has been written to the export control and \<open>in\<close> to the direction file.
\<close>

theorem doEdge_case_sensitive_counterexample:
  "fst (doEdge quiet_env 4 [''gpio'', ''edge'', ''4'', ''RISING''] []) = Return
   \<and> Fprintf ''/sys/class/gpio/gpio4/edge'' (''rising'' @ [NL])
        \<in> set (snd (doEdge quiet_env 4 [''gpio'', ''edge'', ''4'', ''RISING''] []))
   \<and> fst (doEdge quiet_env 4 [''gpio'', ''edge'', ''4'', ''bogus''] []) = Exit 1
   \<and> Fprintf ''/sys/class/gpio/export'' (''4'' @ [NL])
        \<in> set (snd (doEdge quiet_env 4 [''gpio'', ''edge'', ''4'', ''bogus''] []))
   \<and> Fprintf ''/sys/class/gpio/gpio4/direction'' (''in'' @ [NL])
        \<in> set (snd (doEdge quiet_env 4 [''gpio'', ''edge'', ''4'', ''bogus''] []))"
  by (simp add: doEdge_def quiet_env_def eval_defs)

text \<open>
  Claim C6.  Whenever \<^verbatim>\<open>doEdge\<close> returns, from whatever trace it started, the direction
  file of the pin holds \<open>in\<close> and a newline, and the run consists of the write to the
  export control, then the write of \<open>in\<close> to the direction file, then the write to the
  edge file.
\<close>

theorem doEdge_forces_direction_in:
  assumes "doEdge e argc argv evs = (Return, evs')"
  shows "files_after evs' (gpio_file (atoi (argv ! 2)) ''direction'') = Some (''in'' @ [NL])
    \<and> (\<exists>line rest. evs' = evs @
          [Fopen export_file, Fprintf export_file (dec (atoi (argv ! 2)) @ [NL]), Fclose export_file,
           Fopen (gpio_file (atoi (argv ! 2)) ''direction''),
           Fprintf (gpio_file (atoi (argv ! 2)) ''direction'') (''in'' @ [NL]),
           Fclose (gpio_file (atoi (argv ! 2)) ''direction''),
           Fopen (gpio_file (atoi (argv ! 2)) ''edge''),
           Fprintf (gpio_file (atoi (argv ! 2)) ''edge'') line] @ rest)"
proof -
  define pin where "pin = atoi (argv ! 2)"
  define written where "written = evs @
          [Fopen export_file, Fprintf export_file (dec pin @ [NL]), Fclose export_file,
           Fopen (gpio_file pin ''direction''),
           Fprintf (gpio_file pin ''direction'') (''in'' @ [NL]),
           Fclose (gpio_file pin ''direction''),
           Fopen (gpio_file pin ''edge'')]"
  from assms obtain line where
    evs': "evs' = changeOwner e (gpio_file pin ''edge'')
                    (changeOwner e (gpio_file pin ''value'')
                      (written @ [Fprintf (gpio_file pin ''edge'') line])) @ [Fclose (gpio_file pin ''edge'')]"
    by (auto simp add: doEdge_def Let_def pin_def written_def split: if_splits option.splits)
  have "files_after (written @ [Fprintf (gpio_file pin ''edge'') line]) (gpio_file pin ''direction'')
      = Some (''in'' @ [NL])"
    by (simp add: written_def files_after_append gpio_file_neq)
  then have 1: "files_after evs' (gpio_file pin ''direction'') = Some (''in'' @ [NL])"
    unfolding evs' by (simp only: files_after_Fclose changeOwner_files)
  obtain r1 where r1: "changeOwner e (gpio_file pin ''value'') (written @ [Fprintf (gpio_file pin ''edge'') line])
      = (written @ [Fprintf (gpio_file pin ''edge'') line]) @ r1"
    using changeOwner_extends by blast
  obtain r2 where r2: "changeOwner e (gpio_file pin ''edge'') ((written @ [Fprintf (gpio_file pin ''edge'') line]) @ r1)
      = ((written @ [Fprintf (gpio_file pin ''edge'') line]) @ r1) @ r2"
    using changeOwner_extends by blast
  have 2: "evs' = evs @
          [Fopen export_file, Fprintf export_file (dec pin @ [NL]), Fclose export_file,
           Fopen (gpio_file pin ''direction''),
           Fprintf (gpio_file pin ''direction'') (''in'' @ [NL]),
           Fclose (gpio_file pin ''direction''),
           Fopen (gpio_file pin ''edge''),
           Fprintf (gpio_file pin ''edge'') line] @ (r1 @ r2 @ [Fclose (gpio_file pin ''edge'')])"
    unfolding evs' r1 r2 by (simp add: written_def)
  from 1 2 show ?thesis unfolding pin_def by blast
qed

theorem doEdge_forces_direction_in_witness:
  "doEdge quiet_env 4 [''gpio'', ''edge'', ''17'', ''both''] [Fprintf (gpio_file 17 ''direction'') (''out'' @ [NL])]
     = (Return, snd (doEdge quiet_env 4 [''gpio'', ''edge'', ''17'', ''both'']
                       [Fprintf (gpio_file 17 ''direction'') (''out'' @ [NL])]))
   \<and> files_after [Fprintf (gpio_file 17 ''direction'') (''out'' @ [NL])] (gpio_file 17 ''direction'')
       = Some (''out'' @ [NL])
   \<and> files_after (snd (doEdge quiet_env 4 [''gpio'', ''edge'', ''17'', ''both'']
                         [Fprintf (gpio_file 17 ''direction'') (''out'' @ [NL])]))
        (gpio_file 17 ''direction'') = Some (''in'' @ [NL])"
proof -
  have r: "doEdge quiet_env 4 [''gpio'', ''edge'', ''17'', ''both''] [Fprintf (gpio_file 17 ''direction'') (''out'' @ [NL])]
     = (Return, snd (doEdge quiet_env 4 [''gpio'', ''edge'', ''17'', ''both'']
                       [Fprintf (gpio_file 17 ''direction'') (''out'' @ [NL])]))"
    by (simp add: doEdge_def quiet_env_def eval_defs)
  have a: "atoi ([''gpio'', ''edge'', ''17'', ''both''] ! 2) = 17"
    by (simp add: eval_defs)
  have p: "files_after [Fprintf (gpio_file 17 ''direction'') (''out'' @ [NL])] (gpio_file 17 ''direction'')
       = Some (''out'' @ [NL])"
    by (simp add: files_after_def)
  from doEdge_forces_direction_in [OF r] a p r show ?thesis by simp
qed


section \<open>The export command\<close>






section \<open>The write and bank commands\<close>


text \<open>
  Claim C4 fails on the code.  \<^verbatim>\<open>doBank\<close> rejects a bank only when it is greater than 1:
  for the argument \<open>-1\<close> it calls \<^verbatim>\<open>digitalReadBank (-1)\<close>, prints the result and returns.
  The bank 2 is rejected, with the message that the bank must be 0 or 1.
\<close>

theorem doBank_negative_bank:
  "doBank e 3 [''gpio'', ''bank'', ''-1''] evs =
     (Return, evs @ [Lib (DigitalReadBank (- 1)),
                     Print_out (Msg_bank_value (digitalReadBank e evs (- 1)))])
   \<and> doBank e 3 [''gpio'', ''bank'', ''2''] evs =
     (Exit 1, evs @ [Print_err Msg_bad_bank, Print_err (Msg_usage_of ''bank <bank#>'')])"
  by (simp add: doBank_def Let_def atoi_def strtol10_def isspace_def isdigit_def
      INT_MIN_def INT_MAX_def)


section \<open>The load command\<close>

text \<open>
  Claim C3 fails on the code.  In \<open>quiet_env\<close> no directory of the search list holds
  \<^verbatim>\<open>modprobe\<close>.  \<^verbatim>\<open>doLoad\<close> prints "No found" and goes on: with both modules in the module
  list it sleeps, changes the owner of the two device files and returns; with no module
  loaded it goes on to format the command line from the \<^verbatim>\<open>NULL\<close> that \<^verbatim>\<open>findExecutable\<close>
  returned.
\<close>

theorem doLoad_missing_modprobe:
  "findExecutable quiet_env [] ''modprobe'' = None
   \<and> doLoad quiet_env 3 [''gpio'', ''load'', ''spi''] [] =
       (Return, [Print_out Msg_no_found, Sleep 1,
                 Chown ''/dev/spidev0.0'' 1000 1000, Chown ''/dev/spidev0.1'' 1000 1000])
   \<and> doLoad (quiet_env\<lparr>proc_modules := \<lambda>evs. Some []\<rparr>) 3 [''gpio'', ''load'', ''spi''] [] =
       (Undefined, [Print_out Msg_no_found])"
  by (simp add: doLoad_def doLoad_modules_def doLoad_modprobe_def and_then_def checkDevTree_def
      findExecutable_def searchPath_def moduleLoaded_def changeOwner_def quiet_env_def
      tolower_def Let_def)


section \<open>The exports listing\<close>

text \<open>
  Claim C5 fails on the code for the empty read.  After a read of 0 bytes the block stores
  \<open>?\<close> in the buffer and then, by \<^verbatim>\<open>buf [l] = 0\<close> with \<open>l = 0\<close>, a NUL over it: the string
  in the buffer is empty, and the test for a trailing newline indexes the byte before
  the array.  The placeholder is never printed.  A read of \<open>out\<close> and a newline is
  stripped to \<open>out\<close>.  In \<open>quiet_env\<close> every read returns 0 bytes, and \<^verbatim>\<open>doExports\<close> stops at
  the first pin.
\<close>

theorem doExports_empty_read:
  "read_into (Some []) buf = Some (NUL # NUL # drop 2 buf)
   \<and> cstr (NUL # NUL # drop 2 buf) = []
   \<and> strip_newline (NUL # NUL # drop 2 buf) = None
   \<and> read_attr (Some []) buf = None
   \<and> map_option cstr (read_attr (Some (''out'' @ [NL])) (replicate 16 CHR ''#'')) = Some ''out''
   \<and> doExports quiet_env buf [] =
       (Undefined, [Print_out (Text (''GPIO Pins exported:'' @ [NL])),
                    Print_out (Text ''   0: '')])"
proof (intro conjI)
  show 1: "read_into (Some []) buf = Some (NUL # NUL # drop 2 buf)"
    by (simp add: read_into_def sprintf_s_def numeral_2_eq_2)
  show 2: "cstr (NUL # NUL # drop 2 buf) = []"
    by (simp add: cstr_def)
  then show 3: "strip_newline (NUL # NUL # drop 2 buf) = None"
    by (simp add: strip_newline_def strlen_def)
  with 1 show 4: "read_attr (Some []) buf = None"
    by (simp add: read_attr_def)
  show "map_option cstr (read_attr (Some (''out'' @ [NL])) (replicate 16 CHR ''#'')) = Some ''out''"
    by (simp add: read_attr_def read_into_def strip_newline_def strlen_def cstr_def NL_def NUL_def
        eval_nat_numeral)
  show "doExports quiet_env buf [] =
       (Undefined, [Print_out (Text (''GPIO Pins exported:'' @ [NL])),
                    Print_out (Text ''   0: '')])"
    by (simp add: doExports_def doExports_pin_def quiet_env_def upt_rec 4
        pad_left_def dec_def dec_nat.simps numeral_3_eq_3)
qed


section \<open>main\<close>

text \<open>
  Claim C1 fails on the code.  The test for \<^verbatim>\<open>-w\<close> starts a new \<^verbatim>\<open>if\<close> statement, so
  after \<^verbatim>\<open>-p\<close> has been consumed its \<^verbatim>\<open>else\<close> branch runs as well: for
  \<^verbatim>\<open>gpio -p read 4\<close>, run as root, \<^verbatim>\<open>wpMode\<close> is assigned twice, first \<open>WPI_MODE_PHYS\<close> and
  then \<open>WPI_MODE_GPIO\<close>, and both \<^verbatim>\<open>wiringPiSetupPhys\<close> and \<^verbatim>\<open>wiringPiSetupGpio\<close> are called.
\<close>

theorem main_dash_p_sets_wpMode_twice:
  "main (e\<lparr>geteuid := 0, getenv_WIRINGPI_DEBUG := False\<rparr>) [''gpio'', ''-p'', ''read'', ''4'']
     = (Call DoRead 3 [''gpio'', ''read'', ''4'', ''4''],
        [Lib WiringPiSetupPhys, Set_wpMode WPI_MODE_PHYS,
         Lib WiringPiSetupGpio, Set_wpMode WPI_MODE_GPIO])
   \<and> wpMode_writes
        (snd (main (e\<lparr>geteuid := 0, getenv_WIRINGPI_DEBUG := False\<rparr>)
                [''gpio'', ''-p'', ''read'', ''4'']))
       = [WPI_MODE_PHYS, WPI_MODE_GPIO]"
  by (simp add: main_def main_debug_def main_numbering_def main_extensions.simps shift_args_def
      sysfs_command_def core_command_def tolower_def Let_def)

lemma main_numbering_prints:
  "main_numbering (argc, argv, evs) = (argc', argv', evs') \<Longrightarrow>
     Print_out m \<in> set evs' \<longleftrightarrow> Print_out m \<in> set evs"
  by (auto simp add: main_numbering_def split: if_splits)

lemma main_extensions_prints:
  "(main_extensions e argc argv evs = Inl (out, evs') \<longrightarrow>
      (Print_out m \<in> set evs' \<longleftrightarrow> Print_out m \<in> set evs))
   \<and> (main_extensions e argc argv evs = Inr (argc', argv', evs') \<longrightarrow>
      (Print_out m \<in> set evs' \<longleftrightarrow> Print_out m \<in> set evs))"
proof (induction e argc argv evs rule: main_extensions.induct)
  case (1 e argc argv evs)
  show ?case
  proof (cases "strcasecmp (argv ! 1) ''-x'' = 0 \<and> \<not> argc < 3 \<and> loadWPiExtension e evs (argv ! 2)")
    case True
    with 1 show ?thesis
      by (subst (1 2) main_extensions.simps) auto
  next
    case False
    then show ?thesis
      by (subst (1 2) main_extensions.simps) auto
  qed
qed

lemma doVersion_banner: "Print_out Msg_version_banner \<in> set (doVersion e evs)"
  by (simp add: doVersion_def Let_def)

lemma main_debug_banner: "Print_out Msg_version_banner \<notin> set (main_debug e)"
  by (simp add: main_debug_def)

lemma main_version_exact:
  "Print_out Msg_version_banner \<in> set (snd (main e (p # a # rest))) \<longleftrightarrow> a = ''-v''"
proof (cases "a = ''-v''")
  case True
  then show ?thesis
    by (simp add: main_def Let_def strcmp_0_iff strcasecmp_0_iff tolower_def doVersion_banner)
next
  case False
  obtain argc1 argv1 evs1 where n: "main_numbering (length (p # a # rest), p # a # rest, main_debug e)
      = (argc1, argv1, evs1)"
    by (cases "main_numbering (length (p # a # rest), p # a # rest, main_debug e)") auto
  from main_numbering_prints [OF n] main_debug_banner
  have b1: "Print_out Msg_version_banner \<notin> set evs1" by simp
  have b2: "Print_out Msg_version_banner \<notin> set (snd r)"
    if "main_extensions e argc1 argv1 evs1 = Inl r" for r
    using that main_extensions_prints [where e = e and argc = argc1 and argv = argv1 and evs = evs1
        and out = "fst r" and evs' = "snd r" and m = Msg_version_banner] b1
    by simp
  have b3: "Print_out Msg_version_banner \<notin> set evs2"
    if "main_extensions e argc1 argv1 evs1 = Inr (argc2, argv2, evs2)" for argc2 argv2 evs2
    using that main_extensions_prints [where e = e and argc = argc1 and argv = argv1 and evs = evs1
        and argc' = argc2 and argv' = argv2 and evs' = evs2 and m = Msg_version_banner] b1
    by simp
  from False n b2 b3 main_debug_banner show ?thesis
    by (auto simp add: main_def Let_def strcmp_0_iff split: option.splits sum.splits if_splits)
qed

lemma tolower_help_tokens:
  "map tolower ''h'' = ''h''" "map tolower ''-h'' = ''-h''" "map tolower ''-help'' = ''-help''"
  "map tolower ''--help'' = ''--help''" "map tolower ''help'' = ''help''"
  by (simp_all add: tolower_def)

lemma main_help_test:
  "(strcasecmp a ''h'' = 0 \<or> strcasecmp a ''-h'' = 0 \<or> strcasecmp a ''-help'' = 0
      \<or> strcasecmp a ''--help'' = 0 \<or> strcasecmp a ''help'' = 0)
   \<longleftrightarrow> map tolower a \<in> set help_tokens"
  unfolding strcasecmp_0_iff tolower_help_tokens help_tokens_def
  by simp

lemma main_help:
  "map tolower a \<in> set help_tokens \<Longrightarrow>
     main e (p # a # rest) = (Exit 0, main_debug e @ [Print_out Msg_usage])"
  by (simp add: main_def Let_def main_help_test)

lemma main_dash_V_not_root:
  "geteuid e \<noteq> 0 \<Longrightarrow>
     main e (p # ''-V'' # rest) = (Exit 1, main_debug e @ [Print_err Msg_must_be_root])"
  by (simp add: main_def Let_def strcasecmp_0_iff tolower_def)

lemma main_dash_V_root:
  "geteuid e = 0 \<Longrightarrow>
     main e (p # ''-V'' # rest) =
       (Exit 1, main_debug e @ [Lib WiringPiSetupGpio, Set_wpMode WPI_MODE_GPIO,
                                Print_err (Msg_unknown_command ''-V'')])"
  by (simp add: main_def Let_def tolower_def sysfs_command_def core_command_def
      main_numbering_def main_extensions.simps)

lemma commands_caseless:
  assumes "map tolower a = map tolower b"
  shows "sysfs_command a = sysfs_command b \<and> core_command a = core_command b"
  unfolding sysfs_command_def core_command_def strcasecmp_0_iff assms
  by simp

lemma core_command_Some: "core_command a = Some h \<Longrightarrow> map tolower a \<in> set core_names"
  unfolding core_command_def core_names_def strcasecmp_0_iff
  by (simp add: tolower_def split: if_splits)

lemma sysfs_command_Some: "sysfs_command a = Some h \<Longrightarrow> map tolower a \<in> set sysfs_names"
  unfolding sysfs_command_def sysfs_names_def strcasecmp_0_iff
  by (simp add: tolower_def split: if_splits)

lemma not_dash_v: "map tolower a \<noteq> ''-v'' \<Longrightarrow> a \<noteq> ''-v''"
  by (auto simp add: tolower_def)

lemma core_name_tests:
  assumes "map tolower a \<in> set core_names"
  shows "map tolower a \<notin> set help_tokens" "a \<noteq> ''-v''"
    "strcasecmp a ''-warranty'' \<noteq> 0" "sysfs_command a = None"
    "strcasecmp a ''load'' \<noteq> 0" "strcasecmp a ''unload'' \<noteq> 0"
    "strcasecmp a ''usbp'' \<noteq> 0" "strcasecmp a ''allreadall'' \<noteq> 0"
    "strcasecmp a ''-b'' \<noteq> 0" "strcasecmp a ''-p'' \<noteq> 0"
    "strcasecmp a ''-w'' \<noteq> 0" "strcasecmp a ''-z'' \<noteq> 0" "strcasecmp a ''-x'' \<noteq> 0"
proof -
  from assms have "map tolower a \<noteq> ''-v''"
    by (auto simp add: core_names_def)
  then show "a \<noteq> ''-v''" by (rule not_dash_v)
  from assms show "map tolower a \<notin> set help_tokens"
    by (auto simp add: core_names_def help_tokens_def)
  from assms show "sysfs_command a = None"
    unfolding sysfs_command_def strcasecmp_0_iff
    by (auto simp add: core_names_def tolower_def)
  from assms show "strcasecmp a ''-warranty'' \<noteq> 0" "strcasecmp a ''load'' \<noteq> 0"
    "strcasecmp a ''unload'' \<noteq> 0" "strcasecmp a ''usbp'' \<noteq> 0"
    "strcasecmp a ''allreadall'' \<noteq> 0" "strcasecmp a ''-b'' \<noteq> 0" "strcasecmp a ''-p'' \<noteq> 0"
    "strcasecmp a ''-w'' \<noteq> 0" "strcasecmp a ''-z'' \<noteq> 0" "strcasecmp a ''-x'' \<noteq> 0"
    unfolding strcasecmp_0_iff
    by (auto simp add: core_names_def tolower_def)
qed

lemma main_core_dispatch:
  assumes "core_command a = Some h" and "geteuid e = 0"
  shows "main e (p # a # rest) =
           (Call h (Suc (Suc (length rest))) (p # a # rest),
            main_debug e @ [Lib WiringPiSetupGpio, Set_wpMode WPI_MODE_GPIO])"
proof -
  note t = core_name_tests [OF core_command_Some [OF assms(1)]]
  have n: "main_numbering (Suc (Suc (length rest)), p # a # rest, main_debug e)
      = (Suc (Suc (length rest)), p # a # rest,
         main_debug e @ [Lib WiringPiSetupGpio, Set_wpMode WPI_MODE_GPIO])"
    by (simp add: main_numbering_def t)
  have x: "main_extensions e (Suc (Suc (length rest))) (p # a # rest) evs
      = Inr (Suc (Suc (length rest)), p # a # rest, evs)" for evs
    by (subst main_extensions.simps) (simp add: t)
  show ?thesis
    by (simp add: main_def Let_def main_help_test strcmp_0_iff t n x assms)
qed

lemma sysfs_name_tests:
  assumes "map tolower a \<in> set sysfs_names"
  shows "map tolower a \<notin> set help_tokens" "a \<noteq> ''-v''" "strcasecmp a ''-warranty'' \<noteq> 0"
proof -
  from assms have "map tolower a \<noteq> ''-v''"
    by (auto simp add: sysfs_names_def)
  then show "a \<noteq> ''-v''" by (rule not_dash_v)
  from assms show "map tolower a \<notin> set help_tokens"
    by (auto simp add: sysfs_names_def help_tokens_def)
  from assms show "strcasecmp a ''-warranty'' \<noteq> 0"
    unfolding strcasecmp_0_iff
    by (auto simp add: sysfs_names_def tolower_def)
qed

lemma main_sysfs_dispatch:
  assumes "sysfs_command a = Some h" and "geteuid e = 0"
  shows "main e (p # a # rest) = (Call h (Suc (Suc (length rest))) (p # a # rest), main_debug e)"
proof -
  note t = sysfs_name_tests [OF sysfs_command_Some [OF assms(1)]]
  show ?thesis
    by (simp add: main_def Let_def main_help_test strcmp_0_iff t assms)
qed

lemma main_dash_v:
  "main e (p # ''-v'' # rest) = (Exit 0, doVersion e (main_debug e))"
  by (simp add: main_def Let_def tolower_def)

text \<open>
  Claim C9.  \<^verbatim>\<open>main\<close> tests for \<^verbatim>\<open>-v\<close> with \<^verbatim>\<open>strcmp\<close>: the argument \<open>-v\<close> runs
  \<^verbatim>\<open>doVersion\<close> and exits with 0, and the version banner is printed for no other first
  argument.  The argument \<open>-V\<close> goes on to the test of the effective user: not root, the
  exit is "Must be root"; root, the default numbering is set up and the exit is
  "Unknown command".  A help token in any case prints the usage and exits with 0.  The two
  chains of command names do not tell apart two words that differ in case only, and as root
  every word the chains accept is dispatched to its handler.
\<close>

theorem main_version_flag_case_sensitive:
  "main e (p # ''-v'' # rest) = (Exit 0, doVersion e (main_debug e))
   \<and> (\<forall>a. Print_out Msg_version_banner \<in> set (snd (main e (p # a # rest))) \<longleftrightarrow> a = ''-v'')
   \<and> (geteuid e \<noteq> 0 \<longrightarrow>
        main e (p # ''-V'' # rest) = (Exit 1, main_debug e @ [Print_err Msg_must_be_root]))
   \<and> (geteuid e = 0 \<longrightarrow>
        main e (p # ''-V'' # rest) =
          (Exit 1, main_debug e @ [Lib WiringPiSetupGpio, Set_wpMode WPI_MODE_GPIO,
                                   Print_err (Msg_unknown_command ''-V'')]))
   \<and> (\<forall>a. map tolower a \<in> set help_tokens \<longrightarrow>
        main e (p # a # rest) = (Exit 0, main_debug e @ [Print_out Msg_usage]))
   \<and> (\<forall>a b. map tolower a = map tolower b \<longrightarrow>
        sysfs_command a = sysfs_command b \<and> core_command a = core_command b)
   \<and> (\<forall>a h. geteuid e = 0 \<and> sysfs_command a = Some h \<longrightarrow>
        main e (p # a # rest) = (Call h (Suc (Suc (length rest))) (p # a # rest), main_debug e))
   \<and> (\<forall>a h. geteuid e = 0 \<and> core_command a = Some h \<longrightarrow>
        main e (p # a # rest) =
          (Call h (Suc (Suc (length rest))) (p # a # rest),
           main_debug e @ [Lib WiringPiSetupGpio, Set_wpMode WPI_MODE_GPIO]))"
proof (intro conjI allI impI)
  show "main e (p # ''-v'' # rest) = (Exit 0, doVersion e (main_debug e))"
    by (rule main_dash_v)
  show "Print_out Msg_version_banner \<in> set (snd (main e (p # a # rest))) \<longleftrightarrow> a = ''-v''" for a
    by (rule main_version_exact)
  show "main e (p # ''-V'' # rest) = (Exit 1, main_debug e @ [Print_err Msg_must_be_root])"
    if "geteuid e \<noteq> 0"
    using that by (rule main_dash_V_not_root)
  show "main e (p # ''-V'' # rest) =
          (Exit 1, main_debug e @ [Lib WiringPiSetupGpio, Set_wpMode WPI_MODE_GPIO,
                                   Print_err (Msg_unknown_command ''-V'')])"
    if "geteuid e = 0"
    using that by (rule main_dash_V_root)
  show "main e (p # a # rest) = (Exit 0, main_debug e @ [Print_out Msg_usage])"
    if "map tolower a \<in> set help_tokens" for a
    using that by (rule main_help)
  show "sysfs_command a = sysfs_command b" if "map tolower a = map tolower b" for a b
    using commands_caseless [OF that] by (rule conjunct1)
  show "core_command a = core_command b" if "map tolower a = map tolower b" for a b
    using commands_caseless [OF that] by (rule conjunct2)
  show "main e (p # a # rest) = (Call h (Suc (Suc (length rest))) (p # a # rest), main_debug e)"
    if "geteuid e = 0 \<and> sysfs_command a = Some h" for a h
    using that main_sysfs_dispatch by blast
  show "main e (p # a # rest) =
          (Call h (Suc (Suc (length rest))) (p # a # rest),
           main_debug e @ [Lib WiringPiSetupGpio, Set_wpMode WPI_MODE_GPIO])"
    if "geteuid e = 0 \<and> core_command a = Some h" for a h
    using that main_core_dispatch by blast
qed

theorem main_version_flag_case_sensitive_witness:
  "geteuid quiet_env = 0 \<and> geteuid (quiet_env\<lparr>geteuid := 1000\<rparr>) \<noteq> 0
   \<and> main quiet_env [''gpio'', ''-v''] = (Exit 0, doVersion quiet_env [])
   \<and> main quiet_env [''gpio'', ''-V''] =
        (Exit 1, [Lib WiringPiSetupGpio, Set_wpMode WPI_MODE_GPIO,
                  Print_err (Msg_unknown_command ''-V'')])
   \<and> Print_out Msg_version_banner \<notin> set (snd (main quiet_env [''gpio'', ''-V'']))
   \<and> main (quiet_env\<lparr>geteuid := 1000\<rparr>) [''gpio'', ''-V''] = (Exit 1, [Print_err Msg_must_be_root])
   \<and> main quiet_env [''gpio'', ''-HELP''] = (Exit 0, [Print_out Msg_usage])
   \<and> main quiet_env [''gpio'', ''EXPORTS''] = (Call DoExports 2 [''gpio'', ''EXPORTS''], [])
   \<and> main quiet_env [''gpio'', ''Read'', ''4''] =
        (Call DoRead 3 [''gpio'', ''Read'', ''4''], [Lib WiringPiSetupGpio, Set_wpMode WPI_MODE_GPIO])"
proof -
  note t = main_version_flag_case_sensitive
  have root: "geteuid quiet_env = 0" and user: "geteuid (quiet_env\<lparr>geteuid := 1000\<rparr>) \<noteq> 0"
    and dbg: "main_debug quiet_env = []" "main_debug (quiet_env\<lparr>geteuid := 1000\<rparr>) = []"
    by (simp_all add: quiet_env_def main_debug_def)
  have 1: "main quiet_env [''gpio'', ''-v''] = (Exit 0, doVersion quiet_env [])"
    using t [of quiet_env "''gpio''" "[]", THEN conjunct1] by (simp add: dbg)
  have 2: "main quiet_env [''gpio'', ''-V''] =
        (Exit 1, [Lib WiringPiSetupGpio, Set_wpMode WPI_MODE_GPIO,
                  Print_err (Msg_unknown_command ''-V'')])"
    using t [of quiet_env "''gpio''" "[]", THEN conjunct2, THEN conjunct2, THEN conjunct2, THEN conjunct1]
      root by (simp add: dbg)
  have 3: "Print_out Msg_version_banner \<notin> set (snd (main quiet_env [''gpio'', ''-V'']))"
    using t [of quiet_env "''gpio''" "[]", THEN conjunct2, THEN conjunct1, THEN spec, of "''-V''"]
    by simp
  have 4: "main (quiet_env\<lparr>geteuid := 1000\<rparr>) [''gpio'', ''-V''] = (Exit 1, [Print_err Msg_must_be_root])"
    using t [of "quiet_env\<lparr>geteuid := 1000\<rparr>" "''gpio''" "[]",
        THEN conjunct2, THEN conjunct2, THEN conjunct1] user
    by (simp add: dbg)
  have h: "map tolower ''-HELP'' \<in> set help_tokens"
    by (simp add: help_tokens_def tolower_def)
  have 5: "main quiet_env [''gpio'', ''-HELP''] = (Exit 0, [Print_out Msg_usage])"
    using t [of quiet_env "''gpio''" "[]", THEN conjunct2, THEN conjunct2, THEN conjunct2,
        THEN conjunct2, THEN conjunct1, THEN spec, of "''-HELP''"] h
    by (simp add: dbg)
  have s: "sysfs_command ''EXPORTS'' = Some DoExports"
    by (simp add: sysfs_command_def tolower_def)
  have 6: "main quiet_env [''gpio'', ''EXPORTS''] = (Call DoExports 2 [''gpio'', ''EXPORTS''], [])"
    using t [of quiet_env "''gpio''" "[]", THEN conjunct2, THEN conjunct2, THEN conjunct2,
        THEN conjunct2, THEN conjunct2, THEN conjunct2, THEN conjunct1, THEN spec, THEN spec,
        of "''EXPORTS''" DoExports] root s
    by (simp add: dbg numeral_2_eq_2)
  have c: "core_command ''Read'' = Some DoRead"
    by (simp add: core_command_def tolower_def)
  have 7: "main quiet_env [''gpio'', ''Read'', ''4''] =
        (Call DoRead 3 [''gpio'', ''Read'', ''4''], [Lib WiringPiSetupGpio, Set_wpMode WPI_MODE_GPIO])"
    using t [of quiet_env "''gpio''" "[''4'']", THEN conjunct2, THEN conjunct2, THEN conjunct2,
        THEN conjunct2, THEN conjunct2, THEN conjunct2, THEN conjunct2, THEN spec, THEN spec,
        of "''Read''" DoRead] root c
    by (simp add: dbg numeral_3_eq_3)
  from root user 1 2 3 4 5 6 7 show ?thesis by (intro conjI)
qed


text \<open>
  The four commands that \<^verbatim>\<open>main\<close> tests for between the two chains, \<open>load\<close>, \<open>unload\<close>,
  \<open>usbp\<close> and \<open>allreadall\<close>, are matched without regard to case as well.
\<close>

lemma main_direct_commands:
  assumes "geteuid e = 0"
  shows "map tolower a = ''load'' \<Longrightarrow>
           main e (p # a # rest) = (Call DoLoad (Suc (Suc (length rest))) (p # a # rest), main_debug e)"
    and "map tolower a = ''unload'' \<Longrightarrow>
           main e (p # a # rest) = (Call DoUnLoad (Suc (Suc (length rest))) (p # a # rest), main_debug e)"
    and "map tolower a = ''usbp'' \<Longrightarrow>
           main e (p # a # rest) = (Call DoUsbP (Suc (Suc (length rest))) (p # a # rest), main_debug e)"
    and "map tolower a = ''allreadall'' \<Longrightarrow>
           main e (p # a # rest) =
             (Call DoAllReadall (Suc (Suc (length rest))) (p # a # rest),
              main_debug e @ [Lib WiringPiSetupGpio])"
proof -
  have v: "a \<noteq> ''-v''" if "map tolower a \<noteq> ''-v''"
    using that by (rule not_dash_v)
  show "main e (p # a # rest) = (Call DoLoad (Suc (Suc (length rest))) (p # a # rest), main_debug e)"
    if "map tolower a = ''load''"
    using that assms v
    by (simp add: main_def Let_def strcmp_0_iff strcasecmp_0_iff sysfs_command_def tolower_def)
  show "main e (p # a # rest) = (Call DoUnLoad (Suc (Suc (length rest))) (p # a # rest), main_debug e)"
    if "map tolower a = ''unload''"
    using that assms v
    by (simp add: main_def Let_def strcmp_0_iff strcasecmp_0_iff sysfs_command_def tolower_def)
  show "main e (p # a # rest) = (Call DoUsbP (Suc (Suc (length rest))) (p # a # rest), main_debug e)"
    if "map tolower a = ''usbp''"
    using that assms v
    by (simp add: main_def Let_def strcmp_0_iff strcasecmp_0_iff sysfs_command_def tolower_def)
  show "main e (p # a # rest) =
             (Call DoAllReadall (Suc (Suc (length rest))) (p # a # rest),
              main_debug e @ [Lib WiringPiSetupGpio])"
    if "map tolower a = ''allreadall''"
    using that assms v
    by (simp add: main_def Let_def strcmp_0_iff strcasecmp_0_iff sysfs_command_def tolower_def)
qed


section \<open>The mwfi command\<close>

lemma delays_append: "delays (xs @ ys) = delays xs @ delays ys"
  by (induction xs rule: delays.induct) auto

lemma callbacks_fst: "fst (callbacks pins st) = fst st + int (length pins)"
  unfolding callbacks_def
  by (induction pins arbitrary: st) (auto simp add: wfi_def split: prod.splits)

lemma callbacks_delays: "delays (snd (callbacks pins st)) = delays (snd st)"
  unfolding callbacks_def
  by (induction pins arbitrary: st) (auto simp add: wfi_def delays_append split: prod.splits)

lemma doMWfi_wait_Some:
  assumes "doMWfi_wait isr n k st = Some st'"
  shows "fst st = int (observed isr k) \<longrightarrow>
         (\<exists>j. k \<le> j \<and> fst st' = int (observed isr j) \<and> n \<le> fst st'
            \<and> (\<forall>i. k \<le> i \<and> i < j \<longrightarrow> int (observed isr i) < n)
            \<and> delays (snd st') = delays (snd st) @ replicate (j - k) 100)"
proof (rule doMWfi_wait.raw_induct
    [where P = "\<lambda>isr n k st st'. fst st = int (observed isr k) \<longrightarrow>
         (\<exists>j. k \<le> j \<and> fst st' = int (observed isr j) \<and> n \<le> fst st'
            \<and> (\<forall>i. k \<le> i \<and> i < j \<longrightarrow> int (observed isr i) < n)
            \<and> delays (snd st') = delays (snd st) @ replicate (j - k) 100)", OF _ assms])
  fix wait :: "(nat \<Rightarrow> int list) \<Rightarrow> int \<Rightarrow> nat \<Rightarrow> int \<times> event list \<Rightarrow> (int \<times> event list) option"
  fix isr n k st st'
  assume IH: "\<And>isr n k st st'. wait isr n k st = Some st' \<Longrightarrow>
         fst st = int (observed isr k) \<longrightarrow>
         (\<exists>j. k \<le> j \<and> fst st' = int (observed isr j) \<and> n \<le> fst st'
            \<and> (\<forall>i. k \<le> i \<and> i < j \<longrightarrow> int (observed isr i) < n)
            \<and> delays (snd st') = delays (snd st) @ replicate (j - k) 100)"
    and step: "(if fst st < n
      then wait isr n (Suc k) (callbacks (isr (Suc k)) (fst st, snd st @ [DelayMs 100]))
      else Some st) = Some st'"
  show "fst st = int (observed isr k) \<longrightarrow>
         (\<exists>j. k \<le> j \<and> fst st' = int (observed isr j) \<and> n \<le> fst st'
            \<and> (\<forall>i. k \<le> i \<and> i < j \<longrightarrow> int (observed isr i) < n)
            \<and> delays (snd st') = delays (snd st) @ replicate (j - k) 100)"
  proof
    assume inv: "fst st = int (observed isr k)"
    show "\<exists>j. k \<le> j \<and> fst st' = int (observed isr j) \<and> n \<le> fst st'
            \<and> (\<forall>i. k \<le> i \<and> i < j \<longrightarrow> int (observed isr i) < n)
            \<and> delays (snd st') = delays (snd st) @ replicate (j - k) 100"
    proof (cases "fst st < n")
      case False
      with step have eq: "st' = st" by simp
      show ?thesis
      proof (intro exI [of _ k] conjI)
        show "k \<le> k" by simp
        show "fst st' = int (observed isr k)" using eq inv by simp
        show "n \<le> fst st'" using eq False by simp
        show "\<forall>i. k \<le> i \<and> i < k \<longrightarrow> int (observed isr i) < n" by simp
        show "delays (snd st') = delays (snd st) @ replicate (k - k) 100" using eq by simp
      qed
    next
      case True
      define st1 where "st1 = callbacks (isr (Suc k)) (fst st, snd st @ [DelayMs 100])"
      from True step have w: "wait isr n (Suc k) st1 = Some st'"
        by (simp add: st1_def)
      have inv1: "fst st1 = int (observed isr (Suc k))"
        by (simp add: st1_def callbacks_fst inv)
      have d1: "delays (snd st1) = delays (snd st) @ [100]"
        by (simp add: st1_def callbacks_delays delays_append)
      from IH [OF w] inv1
      have "\<exists>j. Suc k \<le> j \<and> fst st' = int (observed isr j) \<and> n \<le> fst st'
            \<and> (\<forall>i. Suc k \<le> i \<and> i < j \<longrightarrow> int (observed isr i) < n)
            \<and> delays (snd st') = delays (snd st1) @ replicate (j - Suc k) 100"
        by (rule mp)
      then obtain j where j1: "Suc k \<le> j" and j2: "fst st' = int (observed isr j)"
        and j3: "n \<le> fst st'"
        and j4: "\<forall>i. Suc k \<le> i \<and> i < j \<longrightarrow> int (observed isr i) < n"
        and j5: "delays (snd st') = delays (snd st1) @ replicate (j - Suc k) 100"
        by (elim exE conjE)
      have low: "\<forall>i. k \<le> i \<and> i < j \<longrightarrow> int (observed isr i) < n"
      proof (intro allI impI)
        fix i assume i: "k \<le> i \<and> i < j"
        show "int (observed isr i) < n"
        proof (cases "i = k")
          case True
          with inv \<open>fst st < n\<close> show ?thesis by simp
        next
          case False
          with i have "Suc k \<le> i \<and> i < j" by simp
          with j4 show ?thesis by (simp only:)
        qed
      qed
      from j1 have "j - k = Suc (j - Suc k)" by simp
      then have "replicate (j - k) (100::nat) = 100 # replicate (j - Suc k) 100"
        by (simp only: replicate_Suc)
      with j5 d1 have dl: "delays (snd st') = delays (snd st) @ replicate (j - k) 100"
        by simp
      show ?thesis
      proof (intro exI [of _ j] conjI)
        show "k \<le> j" using j1 by simp
        show "fst st' = int (observed isr j)" by (rule j2)
        show "n \<le> fst st'" by (rule j3)
        show "\<forall>i. k \<le> i \<and> i < j \<longrightarrow> int (observed isr i) < n" by (rule low)
        show "delays (snd st') = delays (snd st) @ replicate (j - k) 100" by (rule dl)
      qed
    qed
  qed
qed

lemma doMWfi_wait_returns:
  "fst st = int (observed isr k) \<Longrightarrow> n \<le> int (observed isr (k + d)) \<Longrightarrow>
     \<exists>st'. doMWfi_wait isr n k st = Some st'"
proof (induction d arbitrary: k st)
  case 0
  then show ?case
    by (subst doMWfi_wait.simps) simp
next
  case (Suc d)
  show ?case
  proof (cases "fst st < n")
    case False
    then show ?thesis
      by (subst doMWfi_wait.simps) simp
  next
    case True
    have "fst (callbacks (isr (Suc k)) (fst st, snd st @ [DelayMs 100])) = int (observed isr (Suc k))"
      by (simp add: callbacks_fst Suc.prems(1))
    moreover from Suc.prems(2) have "n \<le> int (observed isr (Suc k + d))" by simp
    ultimately have "\<exists>st'. doMWfi_wait isr n (Suc k)
        (callbacks (isr (Suc k)) (fst st, snd st @ [DelayMs 100])) = Some st'"
      by (rule Suc.IH)
    with True show ?thesis
      by (subst doMWfi_wait.simps) simp
  qed
qed

lemma doMWfi_wait_None:
  assumes "fst st = int (observed isr k)" and "\<forall>j. int (observed isr j) < n"
  shows "doMWfi_wait isr n k st = None"
proof (cases "doMWfi_wait isr n k st")
  case None
  then show ?thesis .
next
  case (Some st')
  from doMWfi_wait_Some [OF Some] assms(1)
  have "\<exists>j. k \<le> j \<and> fst st' = int (observed isr j) \<and> n \<le> fst st'
            \<and> (\<forall>i. k \<le> i \<and> i < j \<longrightarrow> int (observed isr i) < n)
            \<and> delays (snd st') = delays (snd st) @ replicate (j - k) 100"
    by (rule mp)
  then obtain j where "fst st' = int (observed isr j)" and "n \<le> fst st'"
    by (elim exE conjE)
  then have "n \<le> int (observed isr j)" by simp
  moreover from assms(2) have "int (observed isr j) < n" by (rule spec)
  ultimately show ?thesis by simp
qed


lemma doMWfi_at_loop:
  assumes "doMWfi_ready e argc argv evs"
  shows "\<exists>st2. fst st2 = int (observed isr 1) \<and> delays (snd st2) = delays evs
           \<and> doMWfi isr e argc argv (c0, evs) =
               (case doMWfi_wait isr (int (length (strtok_all (argv ! 2) CHR '',''))) 1 st2 of
                  None \<Rightarrow> None
                | Some (c, evs') \<Rightarrow> Some (Return, c, evs'))"
proof -
  from assms obtain m where m: "wfi_mode (argv ! 3) = Some m"
    by (auto simp add: doMWfi_ready_def split: option.splits)
  define pins where "pins = map atoi (strtok_all (argv ! 2) CHR '','')"
  define st1 where "st1 = callbacks (isr 0) (c0, evs @ [Lib (WiringPiISRmulti pins m)])"
  define st2 where "st2 = callbacks (isr 1)
      (0, snd st1 @ [Print_out (Msg_wait_for (length pins))])"
  have 1: "fst st2 = int (observed isr 1)"
    by (simp add: st2_def callbacks_fst)
  have 2: "delays (snd st2) = delays evs"
    by (simp add: st2_def st1_def callbacks_delays delays_append)
  from assms m have 3: "doMWfi isr e argc argv (c0, evs) =
               (case doMWfi_wait isr (int (length (strtok_all (argv ! 2) CHR '',''))) 1 st2 of
                  None \<Rightarrow> None
                | Some (c, evs') \<Rightarrow> Some (Return, c, evs'))"
    by (simp add: doMWfi_def doMWfi_ready_def Let_def st2_def st1_def pins_def)
  from 1 2 3 show ?thesis by blast
qed

lemma doMWfi_Return_ready:
  "doMWfi isr e argc argv (c0, evs) = Some (Return, c, evs') \<Longrightarrow> doMWfi_ready e argc argv evs"
  by (auto simp add: doMWfi_def doMWfi_ready_def Let_def split: if_splits option.splits)

lemma doMWfi_None_ready:
  "doMWfi isr e argc argv (c0, evs) = None \<Longrightarrow> doMWfi_ready e argc argv evs"
  by (auto simp add: doMWfi_def doMWfi_ready_def Let_def split: if_splits option.splits)

lemma observed_mono: "observed isr j \<le> observed isr (j + d)"
  by (induction d) auto

text \<open>
  Claim C8.  Let \<open>n\<close> be the number of pins in the list.  When \<^verbatim>\<open>doMWfi\<close> returns, the
  counter is the number of callbacks run since it was reset, it is at least \<open>n\<close>, it was
  below \<open>n\<close> at every earlier test of the loop, and every wait in between was a
  \<^verbatim>\<open>delayMs (100)\<close>.  There is no timeout: \<^verbatim>\<open>doMWfi\<close> never ends exactly when it reaches its
  loop and the schedule never brings the count to \<open>n\<close>; and when it reaches its loop and
  the count does come to \<open>n\<close>, it returns.
\<close>

theorem doMWfi_returns_after_n_events:
  "(doMWfi isr e argc argv (c0, evs) = Some (Return, c, evs') \<longrightarrow>
      (\<exists>j. 1 \<le> j \<and> c = int (observed isr j)
         \<and> int (length (strtok_all (argv ! 2) CHR '','')) \<le> c
         \<and> (\<forall>i. 1 \<le> i \<and> i < j \<longrightarrow> observed isr i < length (strtok_all (argv ! 2) CHR '',''))
         \<and> delays evs' = delays evs @ replicate (j - 1) 100))
   \<and> (doMWfi isr e argc argv (c0, evs) = None \<longleftrightarrow>
        doMWfi_ready e argc argv evs
        \<and> (\<forall>j. observed isr j < length (strtok_all (argv ! 2) CHR '','')))
   \<and> (doMWfi_ready e argc argv evs
        \<and> (\<exists>j. length (strtok_all (argv ! 2) CHR '','') \<le> observed isr j) \<longrightarrow>
        (\<exists>c evs'. doMWfi isr e argc argv (c0, evs) = Some (Return, c, evs')))"
proof -
  define n where "n = length (strtok_all (argv ! 2) CHR '','')"
  have loop: "\<exists>st2. fst st2 = int (observed isr 1) \<and> delays (snd st2) = delays evs
           \<and> doMWfi isr e argc argv (c0, evs) =
               (case doMWfi_wait isr (int n) 1 st2 of
                  None \<Rightarrow> None
                | Some (c, evs') \<Rightarrow> Some (Return, c, evs'))"
    if "doMWfi_ready e argc argv evs"
    unfolding n_def using that by (rule doMWfi_at_loop)
  have A: "\<exists>j. 1 \<le> j \<and> c = int (observed isr j) \<and> int n \<le> c
         \<and> (\<forall>i. 1 \<le> i \<and> i < j \<longrightarrow> observed isr i < n)
         \<and> delays evs' = delays evs @ replicate (j - 1) 100"
    if r: "doMWfi isr e argc argv (c0, evs) = Some (Return, c, evs')"
  proof -
    from r have "doMWfi_ready e argc argv evs" by (rule doMWfi_Return_ready)
    from loop [OF this] obtain st2 where st2: "fst st2 = int (observed isr 1)"
      "delays (snd st2) = delays evs"
      "doMWfi isr e argc argv (c0, evs) =
               (case doMWfi_wait isr (int n) 1 st2 of
                  None \<Rightarrow> None
                | Some (c, evs') \<Rightarrow> Some (Return, c, evs'))"
      by (elim exE conjE)
    from r st2(3) have w: "doMWfi_wait isr (int n) 1 st2 = Some (c, evs')"
      by (simp split: option.splits prod.splits)
    from doMWfi_wait_Some [OF w] st2(1)
    have "\<exists>j. 1 \<le> j \<and> fst (c, evs') = int (observed isr j) \<and> int n \<le> fst (c, evs')
            \<and> (\<forall>i. 1 \<le> i \<and> i < j \<longrightarrow> int (observed isr i) < int n)
            \<and> delays (snd (c, evs')) = delays (snd st2) @ replicate (j - 1) 100"
      by (rule mp)
    with st2(2) show ?thesis by simp
  qed
  have returns: "\<exists>c evs'. doMWfi isr e argc argv (c0, evs) = Some (Return, c, evs')"
    if rdy: "doMWfi_ready e argc argv evs" and j: "n \<le> observed isr j" for j
  proof -
    from loop [OF rdy] obtain st2 where st2: "fst st2 = int (observed isr 1)"
      "doMWfi isr e argc argv (c0, evs) =
               (case doMWfi_wait isr (int n) 1 st2 of
                  None \<Rightarrow> None
                | Some (c, evs') \<Rightarrow> Some (Return, c, evs'))"
      by (elim exE conjE)
    from j observed_mono [of isr j 1] have "int n \<le> int (observed isr (1 + j))"
      by simp
    with st2(1) have "\<exists>st'. doMWfi_wait isr (int n) 1 st2 = Some st'"
      by (rule doMWfi_wait_returns)
    then obtain st' where "doMWfi_wait isr (int n) 1 st2 = Some st'" ..
    with st2(2) show ?thesis
      by (cases st') simp
  qed
  have B1: "doMWfi_ready e argc argv evs \<and> (\<forall>j. observed isr j < n)"
    if none: "doMWfi isr e argc argv (c0, evs) = None"
  proof
    from none show rdy: "doMWfi_ready e argc argv evs" by (rule doMWfi_None_ready)
    show "\<forall>j. observed isr j < n"
    proof (rule ccontr)
      assume "\<not> (\<forall>j. observed isr j < n)"
      then obtain j where "n \<le> observed isr j" by (auto simp add: not_less)
      from returns [OF rdy this] none show False by simp
    qed
  qed
  have B2: "doMWfi isr e argc argv (c0, evs) = None"
    if rdy: "doMWfi_ready e argc argv evs" and never: "\<forall>j. observed isr j < n"
  proof -
    from loop [OF rdy] obtain st2 where st2: "fst st2 = int (observed isr 1)"
      "doMWfi isr e argc argv (c0, evs) =
               (case doMWfi_wait isr (int n) 1 st2 of
                  None \<Rightarrow> None
                | Some (c, evs') \<Rightarrow> Some (Return, c, evs'))"
      by (elim exE conjE)
    from never have "\<forall>j. int (observed isr j) < int n" by simp
    with st2(1) have "doMWfi_wait isr (int n) 1 st2 = None"
      by (rule doMWfi_wait_None)
    with st2(2) show ?thesis by simp
  qed
  from A B1 B2 returns show ?thesis
    unfolding n_def by blast
qed

theorem doMWfi_returns_after_n_events_witness:
  "doMWfi_ready quiet_env 4 [''gpio'', ''mwfi'', ''4,17,27'', ''both''] []
   \<and> length (strtok_all ([''gpio'', ''mwfi'', ''4,17,27'', ''both''] ! 2) CHR '','') = 3
   \<and> observed (\<lambda>k. if k = 2 then [17, 4] else if k = 4 then [27] else []) 4 = 3
   \<and> (\<exists>c evs'. doMWfi (\<lambda>k. if k = 2 then [17, 4] else if k = 4 then [27] else [])
                   quiet_env 4 [''gpio'', ''mwfi'', ''4,17,27'', ''both''] (0, [])
                 = Some (Return, c, evs') \<and> 3 \<le> c \<and> set (delays evs') \<subseteq> {100})
   \<and> doMWfi (\<lambda>k. []) quiet_env 4 [''gpio'', ''mwfi'', ''4,17,27'', ''both''] (0, []) = None"
proof -
  define argv where "argv = [''gpio'', ''mwfi'', ''4,17,27'', ''both'']"
  define isr where "isr = (\<lambda>k::nat. if k = 2 then [17, 4] else if k = 4 then [27::int] else [])"
  define n where "n = length (strtok_all (argv ! 2) CHR '','')"
  have n: "n = 3"
    by (simp add: n_def argv_def strtok_all_def)
  have rdy: "doMWfi_ready quiet_env 4 argv []"
    by (simp add: argv_def doMWfi_ready_def strtok_all_def wfi_mode_def quiet_env_def tolower_def)
  have obs: "observed isr 4 = 3"
    by (simp add: isr_def eval_nat_numeral)
  then have "n \<le> observed isr 4" by (simp add: n)
  then have ex: "\<exists>j. n \<le> observed isr j" ..
  have "\<exists>c evs'. doMWfi isr quiet_env 4 argv (0, []) = Some (Return, c, evs')"
    using doMWfi_returns_after_n_events [of isr quiet_env 4 argv 0 "[]", THEN conjunct2, THEN conjunct2]
      rdy ex unfolding n_def by (simp only: simp_thms)
  then obtain c evs' where r: "doMWfi isr quiet_env 4 argv (0, []) = Some (Return, c, evs')"
    by (elim exE)
  have "\<exists>j. 1 \<le> j \<and> c = int (observed isr j) \<and> int n \<le> c
         \<and> (\<forall>i. 1 \<le> i \<and> i < j \<longrightarrow> observed isr i < n)
         \<and> delays evs' = delays [] @ replicate (j - 1) 100"
    using doMWfi_returns_after_n_events [of isr quiet_env 4 argv 0 "[]" c evs', THEN conjunct1] r
    unfolding n_def by (simp only: simp_thms)
  then obtain j where "int n \<le> c" and "delays evs' = delays [] @ replicate (j - 1) 100"
    by (elim exE conjE)
  then have c: "3 \<le> c \<and> set (delays evs') \<subseteq> {100}"
    by (auto simp add: n)
  have "observed (\<lambda>k. []) j = 0" for j
    by (induction j) simp_all
  then have never: "\<forall>j. observed (\<lambda>k. []) j < n"
    by (simp add: n)
  have none: "doMWfi (\<lambda>k. []) quiet_env 4 argv (0, []) = None"
    using doMWfi_returns_after_n_events [of "\<lambda>k. []" quiet_env 4 argv 0 "[]", THEN conjunct2, THEN conjunct1]
      rdy never unfolding n_def by (simp only: simp_thms)
  from r c have rc: "\<exists>c evs'. doMWfi isr quiet_env 4 argv (0, []) = Some (Return, c, evs')
      \<and> 3 \<le> c \<and> set (delays evs') \<subseteq> {100}"
    by blast
  from rdy n obs rc none show ?thesis
    unfolding argv_def isr_def n_def by (intro conjI)
qed

end
